theory Spec2Isabelle
  imports Complex_Main "HOL-Library.Multiset" "HOL-Library.Char_ord" "HOL-Library.List_Lexorder"
begin

section \<open>Floating-point values\<close>

text \<open>
  The allocator computes on pandas objects holding 64-bit floats. A float is modelled
  as a real number, or one of the three special values of IEEE arithmetic. On finite
  values the operations of this section are exact (no rounding error, no overflow, one
  zero), and the weights are computed with them; the operations of the allocation
  table round to doubles and are defined further down. On the
  special values they follow the IEEE rules that numpy and pandas apply without raising:
  \<open>x / 0\<close> is an infinity (or NaN for \<open>0 / 0\<close>), \<open>inf - inf\<close> and \<open>0 * inf\<close> are NaN,
  and NaN absorbs everything. pandas uses NaN for a missing cell.
\<close>

datatype fl = Fin real | PInf | NInf | NaN

fun is_nan :: "fl \<Rightarrow> bool" where
  "is_nan NaN = True"
| "is_nan _ = False"

fun is_finite :: "fl \<Rightarrow> bool" where
  "is_finite (Fin _) = True"
| "is_finite _ = False"

fun fl_neg :: "fl \<Rightarrow> fl" where
  "fl_neg (Fin a) = Fin (- a)"
| "fl_neg PInf = NInf"
| "fl_neg NInf = PInf"
| "fl_neg NaN = NaN"

fun fl_add :: "fl \<Rightarrow> fl \<Rightarrow> fl" where
  "fl_add (Fin a) (Fin b) = Fin (a + b)"
| "fl_add (Fin a) PInf = PInf"
| "fl_add (Fin a) NInf = NInf"
| "fl_add PInf (Fin b) = PInf"
| "fl_add PInf PInf = PInf"
| "fl_add PInf NInf = NaN"
| "fl_add NInf (Fin b) = NInf"
| "fl_add NInf PInf = NaN"
| "fl_add NInf NInf = NInf"
| "fl_add NaN _ = NaN"
| "fl_add _ NaN = NaN"

definition fl_sub :: "fl \<Rightarrow> fl \<Rightarrow> fl" where
  "fl_sub x y = fl_add x (fl_neg y)"

text \<open>The infinity (or NaN) that a product or quotient with sign \<open>s\<close> overflows to.\<close>

definition signed_inf :: "real \<Rightarrow> fl" where
  "signed_inf s = (if 0 < s then PInf else if s < 0 then NInf else NaN)"

fun fl_mul :: "fl \<Rightarrow> fl \<Rightarrow> fl" where
  "fl_mul (Fin a) (Fin b) = Fin (a * b)"
| "fl_mul (Fin a) PInf = signed_inf a"
| "fl_mul (Fin a) NInf = signed_inf (- a)"
| "fl_mul PInf (Fin b) = signed_inf b"
| "fl_mul PInf PInf = PInf"
| "fl_mul PInf NInf = NInf"
| "fl_mul NInf (Fin b) = signed_inf (- b)"
| "fl_mul NInf PInf = NInf"
| "fl_mul NInf NInf = PInf"
| "fl_mul NaN _ = NaN"
| "fl_mul _ NaN = NaN"

text \<open>
  Division never raises on a pandas Series or a numpy scalar: a finite non-zero value
  over zero is an infinity of its sign, \<open>0 / 0\<close> is NaN.
\<close>

fun fl_div :: "fl \<Rightarrow> fl \<Rightarrow> fl" where
  "fl_div (Fin a) (Fin b) = (if b = 0 then signed_inf a else Fin (a / b))"
| "fl_div (Fin a) PInf = Fin 0"
| "fl_div (Fin a) NInf = Fin 0"
| "fl_div PInf (Fin b) = (if 0 \<le> b then PInf else NInf)"
| "fl_div NInf (Fin b) = (if 0 \<le> b then NInf else PInf)"
| "fl_div PInf PInf = NaN"
| "fl_div PInf NInf = NaN"
| "fl_div NInf PInf = NaN"
| "fl_div NInf NInf = NaN"
| "fl_div NaN _ = NaN"
| "fl_div _ NaN = NaN"

fun fl_sqrt :: "fl \<Rightarrow> fl" where
  "fl_sqrt (Fin a) = (if a < 0 then NaN else Fin (sqrt a))"
| "fl_sqrt PInf = PInf"
| "fl_sqrt NInf = NaN"
| "fl_sqrt NaN = NaN"

primrec fl_sum :: "fl list \<Rightarrow> fl" where
  "fl_sum [] = Fin 0"
| "fl_sum (x # xs) = fl_add x (fl_sum xs)"

text \<open>
  numpy rounds a half to the nearest even integer (\<open>np.round\<close>, which \<open>Series.round\<close>
  calls); with \<open>d\<close> decimals it rounds \<open>x * 10^d\<close> and divides by \<open>10^d\<close>.
\<close>

definition round_half_even :: "real \<Rightarrow> int" where
  "round_half_even r =
     (let f = \<lfloor>r\<rfloor>; d = r - of_int f
      in if d < 1 / 2 then f else if 1 / 2 < d then f + 1
         else if even f then f else f + 1)"

text \<open>
  The rounding that the specification names, half up: it is not in the code, and is
  defined from the specification's words to compare the two.
\<close>

definition round_half_up :: "real \<Rightarrow> int" where
  "round_half_up r = \<lfloor>r + 1 / 2\<rfloor>"

section \<open>Doubles\<close>

text \<open>
  The weights are computed with the exact operations above; the allocation table is where
  the last bit counts (a share count is a rounded quotient), so its operations round to
  64-bit doubles as the machine does: to the nearest double, ties to the even
  significand, \<open>2^(e-52)\<close> apart for a value between \<open>2^e\<close> and \<open>2^(e+1)\<close>, with
  the subnormals below \<open>2^(-1022)\<close> and the infinities from \<open>2^1024\<close> on.
\<close>

definition binade :: "real \<Rightarrow> int" where
  "binade x = max \<lfloor>log 2 \<bar>x\<bar>\<rfloor> (- 1022)"

definition double :: "real \<Rightarrow> fl" where
  "double x =
     (if x = 0 then Fin 0
      else let ulp = 2 powr of_int (binade x - 52);
               y = of_int (round_half_even (x / ulp)) * ulp
           in if \<bar>y\<bar> < 2 ^ 1024 then Fin y else signed_inf x)"

text \<open>
  A value enters the table as a double: a real that is none is read as the nearest one,
  as Python reads a literal. On a double this changes nothing.
\<close>

fun as_double :: "fl \<Rightarrow> fl" where
  "as_double (Fin a) = double a"
| "as_double x = x"

definition d_mul :: "fl \<Rightarrow> fl \<Rightarrow> fl" where
  "d_mul x y = (case (x, y) of (Fin a, Fin b) \<Rightarrow> double (a * b) | _ \<Rightarrow> fl_mul x y)"

definition d_div :: "fl \<Rightarrow> fl \<Rightarrow> fl" where
  "d_div x y =
     (case (x, y) of
        (Fin a, Fin b) \<Rightarrow> if b = 0 then signed_inf a else double (a / b)
      | _ \<Rightarrow> fl_div x y)"

text \<open>
  \<open>Series.round(d)\<close> is numpy's: \<open>rint\<close> for no decimals, which rounds a double to
  an integer, half to even, without error; and for \<open>d\<close> decimals the three operations
  \<open>rint(x * 10^d) / 10^d\<close>, each of them rounded.
\<close>

fun rint :: "fl \<Rightarrow> fl" where
  "rint (Fin a) = Fin (of_int (round_half_even a))"
| "rint x = x"

definition np_round :: "nat \<Rightarrow> fl \<Rightarrow> fl" where
  "np_round d x =
     (if d = 0 then rint x else d_div (rint (d_mul x (Fin (10 ^ d)))) (Fin (10 ^ d)))"

section \<open>Series, dicts and frames\<close>

text \<open>
  A Python dict and a pandas Series built from one are association lists in insertion
  order, with distinct keys. Assigning to a key that is present replaces its value in
  place; assigning to a new key appends.
\<close>

type_synonym ticker = string
type_synonym theme = string
type_synonym series = "(string \<times> fl) list"

definition dict_set :: "('k \<times> 'v) list \<Rightarrow> 'k \<Rightarrow> 'v \<Rightarrow> ('k \<times> 'v) list" where
  "dict_set d k v =
     (if k \<in> set (map fst d) then map (\<lambda>(k', v'). if k' = k then (k', v) else (k', v')) d
      else d @ [(k, v)])"

text \<open>pandas reductions skip NaN (\<open>skipna=True\<close>).\<close>

definition dropna_values :: "fl list \<Rightarrow> fl list" where
  "dropna_values xs = filter (\<lambda>x. \<not> is_nan x) xs"

definition series_sum :: "fl list \<Rightarrow> fl" where
  "series_sum xs = fl_sum (dropna_values xs)"

definition series_mean :: "fl list \<Rightarrow> fl" where
  "series_mean xs =
     (let ys = dropna_values xs
      in if ys = [] then NaN else fl_div (fl_sum ys) (Fin (real (length ys))))"

text \<open>\<open>Series.std()\<close>: the sample standard deviation (\<open>ddof=1\<close>), NaN below two values.\<close>

definition series_std :: "fl list \<Rightarrow> fl" where
  "series_std xs =
     (let ys = dropna_values xs; n = length ys
      in if n < 2 then NaN
         else let avg = fl_div (fl_sum ys) (Fin (real n));
                  sqr = map (\<lambda>y. fl_mul (fl_sub avg y) (fl_sub avg y)) ys
              in fl_sqrt (fl_div (fl_sum sqr) (Fin (real (n - 1)))))"

text \<open>
  A DataFrame of prices: the column labels (tickers) and the rows in date order, each
  row holding one cell per column.
\<close>

record frame =
  columns :: "ticker list"
  rows :: "fl list list"

definition cell :: "ticker list \<Rightarrow> fl list \<Rightarrow> ticker \<Rightarrow> fl" where
  "cell cols row t = (case map_of (zip cols row) t of Some v \<Rightarrow> v | None \<Rightarrow> NaN)"

section \<open>Returns\<close>

text \<open>
  \<open>DataFrame.pct_change()\<close> with its defaults computes \<open>data / data.shift(1) - 1\<close>.
  Which \<open>data\<close> depends on the pandas release: up to 2.x the default
  \<open>fill_method='pad'\<close> first fills each missing price with the last one above it, from
  3.0 on nothing is filled. The release is a parameter of the model.
\<close>

datatype fill_method = Pad | NoFill

fun ffill_from :: "fl list \<Rightarrow> fl list list \<Rightarrow> fl list list" where
  "ffill_from prev [] = []"
| "ffill_from prev (r # rs) =
     (let r' = map2 (\<lambda>p c. if is_nan c then p else c) prev r in r' # ffill_from r' rs)"

definition ffill :: "fl list list \<Rightarrow> fl list list" where
  "ffill rs = (case rs of [] \<Rightarrow> [] | r # rs' \<Rightarrow> r # ffill_from r rs')"

definition fill :: "fill_method \<Rightarrow> fl list list \<Rightarrow> fl list list" where
  "fill fm rs = (case fm of Pad \<Rightarrow> ffill rs | NoFill \<Rightarrow> rs)"

fun pct_rows :: "fl list \<Rightarrow> fl list list \<Rightarrow> fl list list" where
  "pct_rows prev [] = []"
| "pct_rows prev (r # rs) =
     map2 (\<lambda>p c. fl_sub (fl_div c p) (Fin 1)) prev r # pct_rows r rs"

definition pct_change :: "fill_method \<Rightarrow> frame \<Rightarrow> frame" where
  "pct_change fm df =
     df\<lparr>rows := (case fill fm (rows df) of [] \<Rightarrow> []
                 | r # rs \<Rightarrow> map (\<lambda>_. NaN) r # pct_rows r rs)\<rparr>"

text \<open>\<open>DataFrame.dropna()\<close> with its defaults (\<open>how='any'\<close>) drops every row holding a NaN.\<close>

definition dropna :: "frame \<Rightarrow> frame" where
  "dropna df = df\<lparr>rows := filter (\<lambda>r. \<not> list_ex is_nan r) (rows df)\<rparr>"

section \<open>calculate_theme_volatility\<close>

text \<open>
  The loop over \<open>theme_groups.items()\<close>, with the dict being built and the lines printed
  so far. \<open>returns[valid_tickers].mean(axis=1)\<close> is the mean of each row over the
  selected columns.
\<close>

definition warning_line :: "theme \<Rightarrow> string" where
  "warning_line theme = ''Warning: No valid data for theme '' @ theme"

definition valid_tickers_of :: "frame \<Rightarrow> ticker list \<Rightarrow> ticker list" where
  "valid_tickers_of returns tickers = filter (\<lambda>t. t \<in> set (columns returns)) tickers"

definition theme_returns_of :: "frame \<Rightarrow> ticker list \<Rightarrow> fl list" where
  "theme_returns_of returns valid_tickers =
     map (\<lambda>row. series_mean (map (cell (columns returns) row) valid_tickers)) (rows returns)"

definition annualized_volatility :: "fl list \<Rightarrow> fl" where
  "annualized_volatility theme_returns = fl_mul (series_std theme_returns) (Fin (sqrt 252))"

fun volatility_loop ::
  "frame \<Rightarrow> (theme \<times> ticker list) list \<Rightarrow> series \<Rightarrow> string list \<Rightarrow> series \<times> string list"
where
  "volatility_loop returns [] theme_volatility out = (theme_volatility, out)"
| "volatility_loop returns ((theme, tickers) # rest) theme_volatility out =
     (let valid_tickers = valid_tickers_of returns tickers
      in if valid_tickers = []
         then volatility_loop returns rest theme_volatility (out @ [warning_line theme])
         else let theme_returns = theme_returns_of returns valid_tickers
              in volatility_loop returns rest
                   (dict_set theme_volatility theme (annualized_volatility theme_returns))
                   out)"

definition calculate_theme_volatility ::
  "fill_method \<Rightarrow> frame \<Rightarrow> (theme \<times> ticker list) list \<Rightarrow> series \<times> string list"
where
  "calculate_theme_volatility fm price_data theme_groups =
     (let returns = dropna (pct_change fm price_data)
      in volatility_loop returns theme_groups [] [])"

section \<open>calculate_weights\<close>

text \<open>
  Lines 64 to 73: \<open>1 / theme_volatility\<close>, the loop over \<open>inverse_vol.index\<close> that
  multiplies in place where the dict has the theme (an empty dict is falsy and skips
  the loop), and the division by \<open>inverse_vol.sum()\<close>.
\<close>

definition series_mul_at :: "series \<Rightarrow> theme \<Rightarrow> fl \<Rightarrow> series" where
  "series_mul_at s theme c = map (\<lambda>(k, v). if k = theme then (k, fl_mul v c) else (k, v)) s"

fun conviction_loop :: "theme list \<Rightarrow> (theme \<times> fl) list \<Rightarrow> series \<Rightarrow> series" where
  "conviction_loop [] conviction_multipliers inverse_vol = inverse_vol"
| "conviction_loop (theme # rest) conviction_multipliers inverse_vol =
     (case map_of conviction_multipliers theme of
        Some c \<Rightarrow> conviction_loop rest conviction_multipliers (series_mul_at inverse_vol theme c)
      | None \<Rightarrow> conviction_loop rest conviction_multipliers inverse_vol)"

definition inverse_vol_of :: "series \<Rightarrow> series" where
  "inverse_vol_of theme_volatility = map (\<lambda>(k, v). (k, fl_div (Fin 1) v)) theme_volatility"

definition apply_conviction :: "(theme \<times> fl) list option \<Rightarrow> series \<Rightarrow> series" where
  "apply_conviction conviction_multipliers inverse_vol =
     (case conviction_multipliers of
        None \<Rightarrow> inverse_vol
      | Some m \<Rightarrow> if m = [] then inverse_vol
                  else conviction_loop (map fst inverse_vol) m inverse_vol)"

definition normalize :: "series \<Rightarrow> series" where
  "normalize inverse_vol =
     (let total = series_sum (map snd inverse_vol)
      in map (\<lambda>(k, v). (k, fl_div v total)) inverse_vol)"

definition theme_weights_of :: "series \<Rightarrow> (theme \<times> fl) list option \<Rightarrow> series" where
  "theme_weights_of theme_volatility conviction_multipliers =
     normalize (apply_conviction conviction_multipliers (inverse_vol_of theme_volatility))"

text \<open>Lines 76 to 85: every ticker of a theme that has a weight gets an equal share.\<close>

fun ticker_loop :: "(theme \<times> ticker list) list \<Rightarrow> series \<Rightarrow> series \<Rightarrow> series" where
  "ticker_loop [] theme_weights ticker_weights = ticker_weights"
| "ticker_loop ((theme, tickers) # rest) theme_weights ticker_weights =
     (case map_of theme_weights theme of
        None \<Rightarrow> ticker_loop rest theme_weights ticker_weights
      | Some theme_weight \<Rightarrow>
          (let ticker_weight = fl_div theme_weight (Fin (real (length tickers)))
           in ticker_loop rest theme_weights
                (fold (\<lambda>ticker d. dict_set d ticker ticker_weight) tickers ticker_weights)))"

definition calculate_weights ::
  "fill_method \<Rightarrow> (theme \<times> ticker list) list \<Rightarrow> frame \<Rightarrow> (theme \<times> fl) list option
    \<Rightarrow> (series \<times> series \<times> series) \<times> string list"
where
  "calculate_weights fm theme_groups price_data conviction_multipliers =
     (let (theme_volatility, out) = calculate_theme_volatility fm price_data theme_groups;
          theme_weights = theme_weights_of theme_volatility conviction_multipliers;
          ticker_weights = ticker_loop theme_groups theme_weights []
      in ((ticker_weights, theme_weights, theme_volatility), out))"

section \<open>calculate_allocation\<close>

text \<open>
  The two exceptions the allocation can raise: \<open>price_data.iloc[-1]\<close> on a table
  without rows, and \<open>astype(int)\<close> on a share count that is not finite (pandas'
  IntCastingNaNError, a ValueError: "Cannot convert non-finite values (NA or inf) to
  integer").
\<close>

datatype error = IndexError | IntCastingNaNError

record allocation_row =
  symbol :: ticker
  weight_pct :: fl
  latest_price :: fl
  dollar_allocation :: fl
  shares_to_buy :: int

definition iloc_last :: "frame \<Rightarrow> error + series" where
  "iloc_last df =
     (if rows df = [] then Inl IndexError else Inr (zip (columns df) (last (rows df))))"

text \<open>Assigning a Series to a column aligns it on the index: a missing label gives NaN.\<close>

definition reindex :: "series \<Rightarrow> ticker \<Rightarrow> fl" where
  "reindex s t = (case map_of s t of Some v \<Rightarrow> v | None \<Rightarrow> NaN)"

text \<open>
  \<open>astype(int)\<close> raises on NaN and on the infinities, and casts a finite double to a
  64-bit integer: truncated towards zero, and \<open>-2^63\<close> for a value out of the range
  (what the conversion gives on x86-64; nothing is raised).
\<close>

definition int64_cast :: "int \<Rightarrow> int" where
  "int64_cast n = (if - (2 ^ 63) \<le> n \<and> n < 2 ^ 63 then n else - (2 ^ 63))"

fun to_int :: "fl \<Rightarrow> int option" where
  "to_int (Fin a) = Some (int64_cast (if 0 \<le> a then \<lfloor>a\<rfloor> else \<lceil>a\<rceil>))"
| "to_int _ = None"

text \<open>
  \<open>sort_values('Weight %', ascending=False)\<close>: descending, NaN last. Rows with equal
  keys keep their order (pandas reverses, sorts and reverses back; numpy's default
  sort is an insertion sort on a table of at most 16 rows). On a longer table numpy
  promises nothing about equal keys; the general statements below use only that the
  result is sorted and holds the same rows.
\<close>

fun fl_le :: "fl \<Rightarrow> fl \<Rightarrow> bool" where
  "fl_le (Fin a) (Fin b) = (a \<le> b)"
| "fl_le NaN _ = False"
| "fl_le _ NaN = False"
| "fl_le NInf _ = True"
| "fl_le _ PInf = True"
| "fl_le _ _ = False"

definition sorts_before :: "fl \<Rightarrow> fl \<Rightarrow> bool" where
  "sorts_before x y = (is_nan y \<or> (\<not> is_nan x \<and> fl_le y x))"

fun insert_desc :: "allocation_row \<Rightarrow> allocation_row list \<Rightarrow> allocation_row list" where
  "insert_desc x [] = [x]"
| "insert_desc x (y # ys) =
     (if sorts_before (weight_pct x) (weight_pct y) then x # y # ys
      else y # insert_desc x ys)"

definition sort_values_desc :: "allocation_row list \<Rightarrow> allocation_row list" where
  "sort_values_desc rs = foldr insert_desc rs []"

text \<open>
  One row of the table before the cast: the four float columns of a ticker. The weight,
  the portfolio value and the price come in as doubles.
\<close>

definition float_row :: "series \<Rightarrow> fl \<Rightarrow> ticker \<times> fl \<Rightarrow> ticker \<times> fl \<times> fl \<times> fl \<times> fl" where
  "float_row latest_prices portfolio_value tw =
     (let weight = np_round 2 (d_mul (as_double (snd tw)) (Fin 100));
          price = np_round 2 (as_double (reindex latest_prices (fst tw)));
          dollars = np_round 2 (d_mul (as_double (snd tw)) (as_double portfolio_value))
      in (fst tw, weight, price, dollars, np_round 0 (d_div dollars price)))"

fun cast_row :: "ticker \<times> fl \<times> fl \<times> fl \<times> fl \<Rightarrow> allocation_row option" where
  "cast_row (t, weight, price, dollars, q) =
     (case to_int q of
        None \<Rightarrow> None
      | Some n \<Rightarrow> Some \<lparr>symbol = t, weight_pct = weight, latest_price = price,
                         dollar_allocation = dollars, shares_to_buy = n\<rparr>)"

text \<open>
  The frame starts with the index of the ticker weights. When that index is empty, the
  first column assigned from a Series that is not empty gives the frame its index:
  with no ticker weights the frame takes the labels of the latest prices, and its
  weights and dollar amounts are missing.
\<close>

definition frame_index :: "series \<Rightarrow> series \<Rightarrow> series" where
  "frame_index ticker_weights latest_prices =
     (if ticker_weights = [] then map (\<lambda>(t, p). (t, NaN)) latest_prices else ticker_weights)"

definition calculate_allocation :: "series \<Rightarrow> frame \<Rightarrow> fl \<Rightarrow> error + allocation_row list" where
  "calculate_allocation ticker_weights price_data portfolio_value =
     (case iloc_last price_data of
        Inl e \<Rightarrow> Inl e
      | Inr latest_prices \<Rightarrow>
          (let allocation = map (float_row latest_prices portfolio_value)
                 (frame_index ticker_weights latest_prices)
           in if list_all (\<lambda>r. to_int (snd (snd (snd (snd r)))) \<noteq> None) allocation
              then Inr (sort_values_desc (map (\<lambda>r. the (cast_row r)) allocation))
              else Inl IntCastingNaNError))"

section \<open>portfolio_allocator\<close>

text \<open>
  The pipeline after the download: \<open>price_data\<close> stands for what
  \<open>fetch_historical_data\<close> returned. The theme summary joins the volatilities with the
  rounded weight percents; the optional plot is left out.
\<close>

definition portfolio_allocator ::
  "fill_method \<Rightarrow> frame \<Rightarrow> (theme \<times> ticker list) list \<Rightarrow> fl \<Rightarrow> (theme \<times> fl) list option
    \<Rightarrow> error + (allocation_row list \<times> (theme \<times> fl \<times> fl) list)"
where
  "portfolio_allocator fm price_data theme_groups portfolio_value conviction_multipliers =
     (let ((ticker_weights, theme_weights, theme_volatility), out) =
            calculate_weights fm theme_groups price_data conviction_multipliers
      in case calculate_allocation ticker_weights price_data portfolio_value of
           Inl e \<Rightarrow> Inl e
         | Inr allocation \<Rightarrow>
             Inr (allocation,
                  map (\<lambda>(k, v).
                         (k, v, np_round 2 (d_mul (as_double (reindex theme_weights k)) (Fin 100))))
                    theme_volatility))"

section \<open>Notions used in the statements\<close>

text \<open>
  A theme survives when one of its tickers is a column of the returns; its entry in the
  volatility series is what the loop body computes for it. \<open>adjust\<close> is the effect of
  the multiplier loop on one entry of the inverse volatilities.
\<close>

definition survives :: "frame \<Rightarrow> theme \<times> ticker list \<Rightarrow> bool" where
  "survives returns g = (valid_tickers_of returns (snd g) \<noteq> [])"


definition adjust :: "(theme \<times> fl) list option \<Rightarrow> theme \<times> fl \<Rightarrow> theme \<times> fl" where
  "adjust cm kv =
     (case cm of None \<Rightarrow> kv
      | Some m \<Rightarrow> (case map_of m (fst kv) of None \<Rightarrow> kv | Some c \<Rightarrow> (fst kv, fl_mul (snd kv) c)))"



definition multiplier_of :: "(theme \<times> fl) list option \<Rightarrow> theme \<Rightarrow> fl" where
  "multiplier_of cm k =
     (case cm of None \<Rightarrow> Fin 1
      | Some m \<Rightarrow> (case map_of m k of None \<Rightarrow> Fin 1 | Some c \<Rightarrow> c))"


text \<open>
  A small run, used to evaluate the functions: three days of prices of two tickers, and
  three themes of which the last has no ticker with prices.
\<close>

definition ex_prices :: frame where
  "ex_prices = \<lparr>columns = [''X'', ''Z''],
     rows = [[Fin 1, Fin 1], [Fin 2, Fin 1], [Fin 2, Fin 2]]\<rparr>"

definition ex_themes :: "(theme \<times> ticker list) list" where
  "ex_themes = [(''A'', [''X'']), (''B'', [''Z'', ''Q'']), (''C'', [''Q''])]"

text \<open>Prices of a ticker that never moves, beside one that does.\<close>

definition flat_prices :: frame where
  "flat_prices = \<lparr>columns = [''X'', ''Z''],
     rows = [[Fin 1, Fin 1], [Fin 1, Fin 2], [Fin 1, Fin 2]]\<rparr>"

definition flat_themes :: "(theme \<times> ticker list) list" where
  "flat_themes = [(''A'', [''X'']), (''B'', [''Z''])]"

text \<open>A price table of a single day.\<close>

definition one_day_prices :: frame where
  "one_day_prices = \<lparr>columns = [''X''], rows = [[Fin 1]]\<rparr>"

text \<open>Prices where one ticker has no price on the first two days.\<close>

definition gap_prices :: frame where
  "gap_prices = \<lparr>columns = [''X'', ''Z''],
     rows = [[Fin 1, NaN], [Fin 2, NaN], [Fin 4, Fin 8]]\<rparr>"


text \<open>Three themes that share the ticker Q, which has no prices.\<close>

definition shared_themes :: "(theme \<times> ticker list) list" where
  "shared_themes = [(''A'', [''X'', ''Q'']), (''B'', [''Z'', ''Q'']), (''C'', [''Q''])]"

section \<open>Facts about the arithmetic\<close>

lemma fl_div_NaN_right [simp]: "fl_div x NaN = NaN"
  by (cases x) simp_all

lemma fl_mul_NaN_right [simp]: "fl_mul x NaN = NaN"
  by (cases x) simp_all

lemma fl_add_NaN_right [simp]: "fl_add x NaN = NaN"
  by (cases x) simp_all

lemma signed_inf_not_Fin [simp]: "signed_inf s \<noteq> Fin a"
  by (simp add: signed_inf_def)


lemma fl_mul_Fin_iff: "fl_mul x y = Fin c \<longleftrightarrow> (\<exists>a b. x = Fin a \<and> y = Fin b \<and> c = a * b)"
  by (cases x; cases y) auto

lemma round_half_even_of_int [simp]: "round_half_even (of_int k) = k"
  by (simp add: round_half_even_def)

section \<open>Facts about doubles\<close>

lemma two_powr_nat: "(2::real) powr of_int (int n) = 2 ^ n"
  by (simp add: powr_realpow)

text \<open>A real with at most 53 significant bits, in range, is a double.\<close>

lemma double_exact:
  assumes x: "x = of_int m * 2 powr of_int k"
    and m: "\<bar>m\<bar> < 2 ^ 53" and k: "- 1074 \<le> k" and r: "\<bar>x\<bar> < 2 ^ 1024"
  shows "double x = Fin x"
proof (cases "x = 0")
  case True
  then show ?thesis by (simp add: double_def)
next
  case False
  define u where "u = binade x - 52"
  have pos: "0 < \<bar>x\<bar>" using False by simp
  have absx: "\<bar>x\<bar> = of_int \<bar>m\<bar> * 2 powr of_int k"
    unfolding x by (simp add: abs_mult)
  have "(of_int \<bar>m\<bar> :: real) < of_int (2 ^ 53)"
    using m by (simp only: of_int_less_iff)
  then have "(of_int \<bar>m\<bar> :: real) < 2 powr of_int 53"
    using two_powr_nat [of 53] by simp
  then have "of_int \<bar>m\<bar> * (2::real) powr of_int k < 2 powr of_int 53 * 2 powr of_int k"
    by (rule mult_strict_right_mono) simp
  also have "\<dots> = 2 powr of_int (53 + k)"
    by (simp add: powr_add)
  finally have "\<bar>x\<bar> < 2 powr of_int (53 + k)"
    unfolding absx .
  then have "log 2 \<bar>x\<bar> < of_int (53 + k)"
    using pos by (simp add: log_less_iff)
  then have "\<lfloor>log 2 \<bar>x\<bar>\<rfloor> < 53 + k" by (simp add: floor_less_iff)
  with k have e: "u \<le> k" by (simp add: binade_def u_def)
  define n where "n = nat (k - u)"
  have kk: "of_int k = of_int u + (of_int (int n) :: real)" using e by (simp add: n_def)
  have "(2::real) powr of_int k = 2 powr of_int u * 2 ^ n"
    unfolding kk powr_add two_powr_nat ..
  then have "x / 2 powr of_int u = of_int m * 2 ^ n"
    unfolding x by simp
  also have "\<dots> = of_int (m * 2 ^ n)" by simp
  finally have q: "x / 2 powr of_int u = of_int (m * 2 ^ n)" .
  have "of_int (round_half_even (x / 2 powr of_int u)) * 2 powr of_int u =
      (x / 2 powr of_int u) * 2 powr of_int u"
    unfolding q round_half_even_of_int ..
  also have "\<dots> = x" by simp
  finally have y: "of_int (round_half_even (x / 2 powr of_int u)) * 2 powr of_int u = x" .
  from False have "double x =
      (if \<bar>of_int (round_half_even (x / 2 powr of_int u)) * 2 powr of_int u\<bar> < (2::real) ^ 1024
       then Fin (of_int (round_half_even (x / 2 powr of_int u)) * 2 powr of_int u)
       else signed_inf x)"
    unfolding double_def u_def Let_def by (simp only: if_False)
  also have "\<dots> = Fin x"
    unfolding y using r by (simp only: if_True)
  finally show ?thesis .
qed

lemma double_int: "\<bar>m\<bar> < 2 ^ 53 \<Longrightarrow> double (of_int m) = Fin (of_int m)"
proof -
  assume m: "\<bar>m\<bar> < 2 ^ 53"
  then have "\<bar>real_of_int m\<bar> < of_int (2 ^ 53)"
    by (metis of_int_abs of_int_less_iff)
  also have "\<dots> < (2::real) ^ 1024" by simp
  finally have r: "\<bar>real_of_int m\<bar> < 2 ^ 1024" .
  show ?thesis
    by (rule double_exact [of _ m 0]) (use m r in simp_all)
qed

text \<open>The rounding of a real in the binade of \<open>2^k\<close>, for evaluation.\<close>

lemma double_in_binade:
  assumes lo: "2 powr of_int k \<le> \<bar>x\<bar>" and hi: "\<bar>x\<bar> < 2 powr of_int (k + 1)"
    and k: "- 1022 \<le> k"
    and y: "of_int (round_half_even (x / 2 powr of_int (k - 52))) * 2 powr of_int (k - 52) = y"
    and r: "\<bar>y\<bar> < 2 ^ 1024"
  shows "double x = Fin y"
proof -
  have "0 < (2::real) powr of_int k" by simp
  with lo have pos: "0 < \<bar>x\<bar>" by linarith
  have "\<lfloor>log 2 \<bar>x\<bar>\<rfloor> = k"
    using lo hi by (subst floor_log_eq_powr_iff [OF pos]) simp_all
  with k have b: "binade x = k" by (simp add: binade_def)
  from pos have "x \<noteq> 0" by auto
  then show ?thesis
    unfolding double_def b Let_def y using r by simp
qed

lemma double_not_nan [simp]: "double x \<noteq> NaN"
  by (auto simp: double_def Let_def signed_inf_def)

lemma as_double_nan_iff [simp]: "as_double x = NaN \<longleftrightarrow> x = NaN"
  by (cases x) simp_all

lemma d_mul_NaN [simp]: "d_mul NaN y = NaN" "d_mul x NaN = NaN"
  by (cases x; simp add: d_mul_def)+

lemma d_div_NaN [simp]: "d_div NaN y = NaN" "d_div x NaN = NaN"
  by (cases x; simp add: d_div_def)+

lemma np_round_NaN [simp]: "np_round d NaN = NaN"
  by (simp add: np_round_def)

lemma d_mul_Fin_D: "d_mul x y = Fin c \<Longrightarrow> (\<exists>a. x = Fin a) \<and> (\<exists>b. y = Fin b)"
  by (cases x; cases y) (auto simp: d_mul_def signed_inf_def split: if_splits)

lemma d_div_Fin_D: "d_div x y = Fin c \<Longrightarrow> \<exists>a. x = Fin a"
  by (cases x; cases y) (auto simp: d_div_def split: if_splits)

lemma rint_Fin_D: "rint x = Fin c \<Longrightarrow> \<exists>a. x = Fin a \<and> c = of_int (round_half_even a)"
  by (cases x) auto

lemma np_round_Fin_D: "np_round d x = Fin c \<Longrightarrow> \<exists>a. x = Fin a"
proof (cases "d = 0")
  case True
  assume "np_round d x = Fin c"
  with True show ?thesis by (auto simp: np_round_def dest: rint_Fin_D)
next
  case False
  assume "np_round d x = Fin c"
  with False have "d_div (rint (d_mul x (Fin (10 ^ d)))) (Fin (10 ^ d)) = Fin c"
    by (simp add: np_round_def)
  then obtain a where "rint (d_mul x (Fin (10 ^ d))) = Fin a" by (auto dest: d_div_Fin_D)
  then obtain b where "d_mul x (Fin (10 ^ d)) = Fin b" by (auto dest: rint_Fin_D)
  then show ?thesis by (auto dest: d_mul_Fin_D)
qed

lemma as_double_Fin_D: "as_double x = Fin c \<Longrightarrow> \<exists>a. x = Fin a"
  by (cases x) auto

text \<open>Multiplying by and dividing by a positive constant, and rounding, make no NaN.\<close>

lemma d_mul_const_not_nan: "0 < c \<Longrightarrow> x \<noteq> NaN \<Longrightarrow> d_mul x (Fin c) \<noteq> NaN"
  by (cases x) (auto simp: d_mul_def signed_inf_def)

lemma d_div_const_not_nan: "0 < c \<Longrightarrow> x \<noteq> NaN \<Longrightarrow> d_div x (Fin c) \<noteq> NaN"
  by (cases x) (auto simp: d_div_def signed_inf_def)

lemma rint_not_nan: "x \<noteq> NaN \<Longrightarrow> rint x \<noteq> NaN"
  by (cases x) auto

lemma np_round_not_nan: "x \<noteq> NaN \<Longrightarrow> np_round d x \<noteq> NaN"
  by (simp add: np_round_def rint_not_nan d_mul_const_not_nan d_div_const_not_nan)

lemma double_numeral [simp]: "numeral n < (2::int) ^ 53 \<Longrightarrow> double (numeral n) = Fin (numeral n)"
  using double_int [of "numeral n"] by simp

lemma double_one [simp]: "double 1 = Fin 1"
  using double_int [of 1] by simp

lemma double_quarters [simp]:
  "double (1 / 4) = Fin (1 / 4)" "double (3 / 4) = Fin (3 / 4)" "double (5 / 2) = Fin (5 / 2)"
  using double_exact [of "1 / 4" 1 "- 2"] double_exact [of "3 / 4" 3 "- 2"]
    double_exact [of "5 / 2" 5 "- 1"]
  by (simp_all add: powr_minus)

lemma d_div_Fin_iff:
  "d_div x y = Fin c \<longleftrightarrow>
     (\<exists>a. x = Fin a \<and>
        ((\<exists>b. y = Fin b \<and> b \<noteq> 0 \<and> double (a / b) = Fin c) \<or> ((y = PInf \<or> y = NInf) \<and> c = 0)))"
  by (cases x; cases y) (auto simp: d_div_def split: if_splits)

lemma to_int_round0:
  "to_int (np_round 0 q) = Some n \<Longrightarrow> \<exists>c. q = Fin c \<and> n = int64_cast (round_half_even c)"
  by (cases q) (auto simp: np_round_def)

section \<open>Facts about the allocation table\<close>

lemma mset_insert_desc: "mset (insert_desc x ys) = add_mset x (mset ys)"
  by (induction ys) simp_all

lemma mset_sort_values_desc: "mset (sort_values_desc rs) = mset rs"
  by (induction rs) (simp_all add: sort_values_desc_def mset_insert_desc)

lemma set_sort_values_desc: "set (sort_values_desc rs) = set rs"
  using mset_sort_values_desc [of rs] by (metis set_mset_mset)

lemma float_row_nan: "snd (snd (snd (snd (float_row lp pv (t, NaN))))) = NaN"
  by (simp add: float_row_def Let_def)

text \<open>A table is returned for no ticker weights only when the prices have no column.\<close>

lemma frame_index_ok:
  assumes "list_all (\<lambda>r. to_int (snd (snd (snd (snd r)))) \<noteq> None)
      (map (float_row lp pv) (frame_index tw lp))"
  shows "frame_index tw lp = tw"
proof (cases "tw = []")
  case False
  then show ?thesis by (simp add: frame_index_def)
next
  case True
  have "lp = []"
  proof (rule ccontr)
    assume "lp \<noteq> []"
    then obtain t p rest where lp: "lp = (t, p) # rest" by (cases lp) auto
    with assms True have "to_int (snd (snd (snd (snd (float_row lp pv (t, NaN)))))) \<noteq> None"
      by (simp add: frame_index_def)
    then show False by (simp add: float_row_nan)
  qed
  with True show ?thesis by (simp add: frame_index_def)
qed

lemma calculate_allocation_Inr:
  assumes "calculate_allocation tw pd pv = Inr allocation"
  shows "rows pd \<noteq> []"
    and "list_all (\<lambda>r. to_int (snd (snd (snd (snd r)))) \<noteq> None)
           (map (float_row (zip (columns pd) (last (rows pd))) pv) tw)"
    and "allocation = sort_values_desc
           (map (\<lambda>r. the (cast_row r)) (map (float_row (zip (columns pd) (last (rows pd))) pv) tw))"
proof -
  let ?lp = "zip (columns pd) (last (rows pd))"
  from assms show r: "rows pd \<noteq> []"
    by (auto simp: calculate_allocation_def iloc_last_def split: if_splits)
  with assms have ok: "list_all (\<lambda>r. to_int (snd (snd (snd (snd r)))) \<noteq> None)
      (map (float_row ?lp pv) (frame_index tw ?lp))"
    and al: "allocation = sort_values_desc
      (map (\<lambda>r. the (cast_row r)) (map (float_row ?lp pv) (frame_index tw ?lp)))"
    by (auto simp: calculate_allocation_def iloc_last_def Let_def split: if_splits)
  note fi = frame_index_ok [OF ok]
  from ok show "list_all (\<lambda>r. to_int (snd (snd (snd (snd r)))) \<noteq> None) (map (float_row ?lp pv) tw)"
    unfolding fi .
  from al show "allocation = sort_values_desc
      (map (\<lambda>r. the (cast_row r)) (map (float_row ?lp pv) tw))"
    unfolding fi .
qed

text \<open>With ticker weights, the frame has their index.\<close>

lemma calculate_allocation_weights:
  assumes "tw \<noteq> []" and "rows pd \<noteq> []"
  shows "calculate_allocation tw pd pv =
     (let allocation = map (float_row (zip (columns pd) (last (rows pd))) pv) tw
      in if list_all (\<lambda>r. to_int (snd (snd (snd (snd r)))) \<noteq> None) allocation
         then Inr (sort_values_desc (map (\<lambda>r. the (cast_row r)) allocation))
         else Inl IntCastingNaNError)"
  using assms by (simp add: calculate_allocation_def iloc_last_def frame_index_def)

lemma row_of_allocation:
  assumes "calculate_allocation tw pd pv = Inr allocation" and "r \<in> set allocation"
  shows "\<exists>w q. (symbol r, w) \<in> set tw \<and>
           weight_pct r = np_round 2 (d_mul (as_double w) (Fin 100)) \<and>
           latest_price r =
             np_round 2 (as_double (reindex (zip (columns pd) (last (rows pd))) (symbol r))) \<and>
           dollar_allocation r = np_round 2 (d_mul (as_double w) (as_double pv)) \<and>
           d_div (dollar_allocation r) (latest_price r) = Fin q \<and>
           shares_to_buy r = int64_cast (round_half_even q)"
proof -
  let ?lp = "zip (columns pd) (last (rows pd))"
  from calculate_allocation_Inr [OF assms(1)] assms(2)
  obtain tw1 where m: "tw1 \<in> set tw" and r: "r = the (cast_row (float_row ?lp pv tw1))"
    and ok: "to_int (snd (snd (snd (snd (float_row ?lp pv tw1))))) \<noteq> None"
    by (auto simp: set_sort_values_desc list_all_iff)
  obtain t w where tw1: "tw1 = (t, w)" by (cases tw1)
  let ?d = "np_round 2 (d_mul (as_double w) (as_double pv))"
  let ?p = "np_round 2 (as_double (reindex ?lp t))"
  from ok obtain n where n: "to_int (np_round 0 (d_div ?d ?p)) = Some n"
    by (auto simp: float_row_def tw1 Let_def)
  from to_int_round0 [OF n] obtain q where q: "d_div ?d ?p = Fin q"
    and nq: "n = int64_cast (round_half_even q)"
    by blast
  from n r tw1 have "symbol r = t" "weight_pct r = np_round 2 (d_mul (as_double w) (Fin 100))"
    "latest_price r = ?p" "dollar_allocation r = ?d" "shares_to_buy r = n"
    by (simp_all add: float_row_def Let_def)
  with m tw1 q nq show ?thesis by auto
qed

section \<open>Share counts\<close>

text \<open>
  Claim C4, as the code has it: in every row of the table that calculate_allocation
  returns, the dollar allocation is the ticker's weight times the portfolio value, a
  double, rounded to 2 decimals; the latest price is the last row's price rounded to 2
  decimals; and the share count is their quotient, a double again, rounded half to even
  (numpy's rounding, not half up) and cast to a 64-bit integer. A finite dollar amount
  over an infinite price gives 0 shares.
\<close>

theorem shares_round_half_even:
  assumes "calculate_allocation ticker_weights price_data portfolio_value = Inr allocation"
    and "r \<in> set allocation"
  shows "\<exists>w d q. (symbol r, w) \<in> set ticker_weights \<and>
           dollar_allocation r = np_round 2 (d_mul (as_double w) (as_double portfolio_value)) \<and>
           latest_price r =
             np_round 2 (as_double (cell (columns price_data) (last (rows price_data)) (symbol r))) \<and>
           dollar_allocation r = Fin d \<and>
           ((\<exists>p. latest_price r = Fin p \<and> p \<noteq> 0 \<and> double (d / p) = Fin q)
            \<or> ((latest_price r = PInf \<or> latest_price r = NInf) \<and> q = 0)) \<and>
           shares_to_buy r = int64_cast (round_half_even q)"
proof -
  let ?lp = "zip (columns price_data) (last (rows price_data))"
  from row_of_allocation [OF assms] obtain w q where w: "(symbol r, w) \<in> set ticker_weights"
    and d: "dollar_allocation r = np_round 2 (d_mul (as_double w) (as_double portfolio_value))"
    and p: "latest_price r = np_round 2 (as_double (reindex ?lp (symbol r)))"
    and q: "d_div (dollar_allocation r) (latest_price r) = Fin q"
    and s: "shares_to_buy r = int64_cast (round_half_even q)"
    by blast
  have c: "reindex ?lp (symbol r) = cell (columns price_data) (last (rows price_data)) (symbol r)"
    by (simp add: reindex_def cell_def)
  from q obtain a where a: "dollar_allocation r = Fin a"
    and alt: "(\<exists>b. latest_price r = Fin b \<and> b \<noteq> 0 \<and> double (a / b) = Fin q) \<or>
      ((latest_price r = PInf \<or> latest_price r = NInf) \<and> q = 0)"
    unfolding d_div_Fin_iff by blast
  from w d p [unfolded c] a alt s show ?thesis by blast
qed

lemma quarter_of_ten:
  "calculate_allocation [(''X'', Fin (1 / 4))] \<lparr>columns = [''X''], rows = [[Fin 1]]\<rparr> (Fin 10) =
     Inr [\<lparr>symbol = ''X'', weight_pct = Fin 25, latest_price = Fin 1,
           dollar_allocation = Fin (5 / 2), shares_to_buy = 2\<rparr>]"
  by (simp add: calculate_allocation_def iloc_last_def frame_index_def float_row_def reindex_def
      np_round_def d_mul_def d_div_def round_half_even_def int64_cast_def sort_values_desc_def)

theorem shares_round_half_even_witness:
  "\<exists>w d q. (''X'', w) \<in> set [(''X'', Fin (1 / 4))] \<and>
     Fin (5 / 2) = np_round 2 (d_mul (as_double w) (as_double (Fin 10))) \<and> Fin (5 / 2) = Fin d \<and>
     (\<exists>p. Fin 1 = Fin p \<and> p \<noteq> 0 \<and> double (d / p) = Fin q) \<and>
     (2::int) = int64_cast (round_half_even q)"
proof -
  let ?r = "\<lparr>symbol = ''X'', weight_pct = Fin 25, latest_price = Fin 1,
           dollar_allocation = Fin (5 / 2), shares_to_buy = 2\<rparr>"
  have mem: "?r \<in> set [?r]" by simp
  from shares_round_half_even [OF quarter_of_ten mem] obtain w d q
    where 1: "(''X'', w) \<in> set [(''X'', Fin (1 / 4))]"
      and 2: "Fin (5 / 2) = np_round 2 (d_mul (as_double w) (as_double (Fin 10)))"
      and 3: "Fin (5 / 2) = Fin d"
      and 4: "(\<exists>p. Fin 1 = Fin p \<and> p \<noteq> 0 \<and> double (d / p) = Fin q)
            \<or> ((Fin 1 = PInf \<or> Fin 1 = NInf) \<and> q = 0)"
      and 5: "(2::int) = int64_cast (round_half_even q)"
    unfolding allocation_row.select_convs by blast
  from 4 have "\<exists>p. Fin 1 = Fin p \<and> p \<noteq> 0 \<and> double (d / p) = Fin q"
    using fl.distinct by blast
  with 1 2 3 5 show ?thesis by blast
qed

text \<open>
  Claim C4 as stated fails: a weight of 0.25 of a portfolio of 10 at a price of 1.00
  is a quotient of exactly 2.5 (every value here is a double), for which the table
  holds 2 shares; rounding half up gives 3.
\<close>

theorem shares_round_half_up_counterexample:
  "calculate_allocation [(''X'', Fin (1 / 4))] \<lparr>columns = [''X''], rows = [[Fin 1]]\<rparr> (Fin 10) =
     Inr [\<lparr>symbol = ''X'', weight_pct = Fin 25, latest_price = Fin 1,
           dollar_allocation = Fin (5 / 2), shares_to_buy = 2\<rparr>]
   \<and> round_half_up ((5 / 2) / 1) = 3"
  by (simp add: calculate_allocation_def iloc_last_def frame_index_def float_row_def reindex_def
      np_round_def d_mul_def d_div_def round_half_even_def int64_cast_def round_half_up_def
      sort_values_desc_def)

section \<open>Order of the allocation table\<close>

lemma sorts_before_total: "\<not> sorts_before x y \<Longrightarrow> sorts_before y x"
  by (cases x; cases y) (auto simp: sorts_before_def)

lemma sorts_before_trans: "sorts_before x y \<Longrightarrow> sorts_before y z \<Longrightarrow> sorts_before x z"
  by (cases x; cases y; cases z) (auto simp: sorts_before_def)

lemma set_insert_desc: "set (insert_desc x ys) = insert x (set ys)"
  using mset_insert_desc [of x ys] by (metis set_mset_add_mset_insert set_mset_mset)

lemma sorted_insert_desc:
  "sorted_wrt (\<lambda>a b. sorts_before (weight_pct a) (weight_pct b)) ys \<Longrightarrow>
   sorted_wrt (\<lambda>a b. sorts_before (weight_pct a) (weight_pct b)) (insert_desc x ys)"
proof (induction ys)
  case Nil
  then show ?case by simp
next
  case (Cons y ys)
  show ?case
  proof (cases "sorts_before (weight_pct x) (weight_pct y)")
    case True
    with Cons.prems show ?thesis
      by (auto intro: sorts_before_trans)
  next
    case False
    then have "sorts_before (weight_pct y) (weight_pct x)" by (rule sorts_before_total)
    with False Cons show ?thesis
      by (auto simp: set_insert_desc)
  qed
qed

lemma sorted_sort_values_desc:
  "sorted_wrt (\<lambda>a b. sorts_before (weight_pct a) (weight_pct b)) (sort_values_desc rs)"
  by (induction rs) (simp_all add: sort_values_desc_def sorted_insert_desc)

text \<open>
  No weight percent of a returned table is NaN: a NaN weight makes the share count NaN,
  and the cast raises.
\<close>

lemma weight_pct_not_nan:
  assumes "calculate_allocation tw pd pv = Inr allocation" and "r \<in> set allocation"
  shows "weight_pct r \<noteq> NaN"
proof -
  from row_of_allocation [OF assms] obtain w q where
    wp: "weight_pct r = np_round 2 (d_mul (as_double w) (Fin 100))"
    and d: "dollar_allocation r = np_round 2 (d_mul (as_double w) (as_double pv))"
    and q: "d_div (dollar_allocation r) (latest_price r) = Fin q"
    by blast
  from q obtain a where "dollar_allocation r = Fin a"
    by (auto dest: d_div_Fin_D)
  with d have "np_round 2 (d_mul (as_double w) (as_double pv)) = Fin a" by simp
  then obtain b where "d_mul (as_double w) (as_double pv) = Fin b"
    by (auto dest: np_round_Fin_D)
  then obtain c where "as_double w = Fin c"
    by (auto dest: d_mul_Fin_D)
  then have "d_mul (as_double w) (Fin 100) \<noteq> NaN"
    by (simp add: d_mul_const_not_nan)
  then show ?thesis
    unfolding wp by (rule np_round_not_nan)
qed

lemma sorts_before_le: "sorts_before x y \<Longrightarrow> y \<noteq> NaN \<Longrightarrow> fl_le y x"
  by (cases y) (auto simp: sorts_before_def)

text \<open>
  Claim C9, as the code has it: the table that calculate_allocation returns is sorted
  by weight percent in descending order (no weight percent in it is NaN), and it
  holds one row for each entry of the ticker weights. The code sorts on the weight
  percent alone: nothing orders rows of equal weight percent by ticker symbol.
\<close>

theorem allocation_sorted_descending:
  assumes "calculate_allocation ticker_weights price_data portfolio_value = Inr allocation"
  shows "sorted_wrt (\<lambda>a b. fl_le (weight_pct b) (weight_pct a)) allocation \<and>
         mset (map symbol allocation) = mset (map fst ticker_weights)"
proof -
  let ?P = "\<lambda>a b. sorts_before (weight_pct a) (weight_pct b)"
  let ?fr = "map (float_row (zip (columns price_data) (last (rows price_data))) portfolio_value) ticker_weights"
  have al: "allocation = sort_values_desc (map (\<lambda>r. the (cast_row r)) ?fr)"
    and ok: "list_all (\<lambda>r. to_int (snd (snd (snd (snd r)))) \<noteq> None) ?fr"
    using calculate_allocation_Inr [OF assms] by simp_all
  have "sorted_wrt ?P allocation"
    unfolding al by (rule sorted_sort_values_desc)
  moreover have "\<And>a b. a \<in> set allocation \<Longrightarrow> b \<in> set allocation \<Longrightarrow> ?P a b
      \<Longrightarrow> fl_le (weight_pct b) (weight_pct a)"
  proof -
    fix a b assume "a \<in> set allocation" and b: "b \<in> set allocation" and p: "?P a b"
    from weight_pct_not_nan [OF assms b] have "weight_pct b \<noteq> NaN" .
    with p show "fl_le (weight_pct b) (weight_pct a)" by (rule sorts_before_le)
  qed
  ultimately have s: "sorted_wrt (\<lambda>a b. fl_le (weight_pct b) (weight_pct a)) allocation"
    by (rule sorted_wrt_mono_rel [rotated]) blast
  have "\<And>x. x \<in> set ticker_weights \<Longrightarrow>
      symbol (the (cast_row (float_row (zip (columns price_data) (last (rows price_data))) portfolio_value x))) = fst x"
  proof -
    fix x assume "x \<in> set ticker_weights"
    with ok obtain n where "to_int (snd (snd (snd (snd (float_row (zip (columns price_data) (last (rows price_data))) portfolio_value x))))) = Some n"
      by (auto simp: list_all_iff)
    then show "symbol (the (cast_row (float_row (zip (columns price_data) (last (rows price_data))) portfolio_value x))) = fst x"
      by (cases x) (simp add: float_row_def Let_def)
  qed
  then have "map symbol (map (\<lambda>r. the (cast_row r)) ?fr) = map fst ticker_weights"
    by (simp add: comp_def)
  then have "mset (map symbol allocation) = mset (map fst ticker_weights)"
    unfolding al by (metis mset_map mset_sort_values_desc)
  with s show ?thesis by simp
qed

text \<open>
  Claim C9 as stated fails on ties: with equal weights for Z and Y, in this order in
  the ticker weights, the table lists Z before Y, against the order of the symbols.
\<close>

theorem allocation_tie_order_counterexample:
  "calculate_allocation [(''Z'', Fin (1 / 4)), (''Y'', Fin (1 / 4))]
      \<lparr>columns = [''Y'', ''Z''], rows = [[Fin 1, Fin 1]]\<rparr> (Fin 100) =
     Inr [\<lparr>symbol = ''Z'', weight_pct = Fin 25, latest_price = Fin 1,
            dollar_allocation = Fin 25, shares_to_buy = 25\<rparr>,
          \<lparr>symbol = ''Y'', weight_pct = Fin 25, latest_price = Fin 1,
            dollar_allocation = Fin 25, shares_to_buy = 25\<rparr>]
   \<and> (''Y'' :: string) < ''Z''"
  by (simp add: calculate_allocation_def iloc_last_def frame_index_def float_row_def reindex_def
      np_round_def d_mul_def d_div_def round_half_even_def int64_cast_def
      sort_values_desc_def sorts_before_def Let_def less_char_def)

theorem allocation_sorted_descending_witness:
  "sorted_wrt (\<lambda>a b. fl_le (weight_pct b) (weight_pct a))
     [\<lparr>symbol = ''Y'', weight_pct = Fin 75, latest_price = Fin 1,
        dollar_allocation = Fin 75, shares_to_buy = 75\<rparr>,
      \<lparr>symbol = ''Z'', weight_pct = Fin 25, latest_price = Fin 1,
        dollar_allocation = Fin 25, shares_to_buy = 25\<rparr>]"
proof -
  have run: "calculate_allocation [(''Z'', Fin (1 / 4)), (''Y'', Fin (3 / 4))]
      \<lparr>columns = [''Y'', ''Z''], rows = [[Fin 1, Fin 1]]\<rparr> (Fin 100) =
      Inr [\<lparr>symbol = ''Y'', weight_pct = Fin 75, latest_price = Fin 1,
        dollar_allocation = Fin 75, shares_to_buy = 75\<rparr>,
      \<lparr>symbol = ''Z'', weight_pct = Fin 25, latest_price = Fin 1,
        dollar_allocation = Fin 25, shares_to_buy = 25\<rparr>]"
    by (simp add: calculate_allocation_def iloc_last_def frame_index_def float_row_def reindex_def
      np_round_def d_mul_def d_div_def round_half_even_def int64_cast_def
      sort_values_desc_def sorts_before_def Let_def)
  show ?thesis using allocation_sorted_descending [OF run] by blast
qed

section \<open>Missing prices\<close>




text \<open>
  Without ticker weights the frame takes the index of the latest prices, every share
  count is NaN, and the cast raises as well.
\<close>

lemma no_ticker_weights:
  assumes "rows price_data \<noteq> []" and "columns price_data \<noteq> []" and "last (rows price_data) \<noteq> []"
  shows "calculate_allocation [] price_data portfolio_value = Inl IntCastingNaNError"
proof -
  let ?lp = "zip (columns price_data) (last (rows price_data))"
  from assms(2,3) obtain t p rest where lp: "?lp = (t, p) # rest"
    by (cases "columns price_data"; cases "last (rows price_data)") auto
  have "to_int (snd (snd (snd (snd (float_row ?lp portfolio_value (t, NaN)))))) = None"
    by (simp add: float_row_nan)
  then have "\<not> list_all (\<lambda>r. to_int (snd (snd (snd (snd r)))) \<noteq> None)
      (map (float_row ?lp portfolio_value) (frame_index [] ?lp))"
    unfolding lp by (simp add: frame_index_def)
  with assms(1) show ?thesis
    by (simp add: calculate_allocation_def iloc_last_def Let_def)
qed

section \<open>Two runs of the double arithmetic\<close>

lemma d_mul_step: "double (a * b) = Fin c \<Longrightarrow> d_mul (Fin a) (Fin b) = Fin c"
  by (simp add: d_mul_def)

lemma d_div_step: "b \<noteq> 0 \<Longrightarrow> double (a / b) = Fin c \<Longrightarrow> d_div (Fin a) (Fin b) = Fin c"
  by (simp add: d_div_def)

lemma np_round2_step:
  assumes "double (a * 100) = Fin b" and "round_half_even b = n"
    and "double (of_int n / 100) = Fin c"
  shows "np_round 2 (Fin a) = Fin c"
  using assms by (simp add: np_round_def d_mul_def d_div_def)

text \<open>
  A weight of 0.045 of a portfolio of 23429 at a price of 0.2, none of which is a
  double. The product times 100 is the double 105430.5, which rounds to the even
  105430; the dollar amount and the price are the doubles next to 1054.3 and 0.2, and
  their quotient is the double below 5271.5: the table holds 5271 shares, where the
  quotient of the decimals, 5271.5, would give 5272.
\<close>

lemma double_weight: "double (9 / 200) = Fin (3242591731706757 / 72057594037927936)"
  by (rule double_in_binade [where k = "- 5"]) (simp_all add: powr_minus round_half_even_def)

lemma double_price: "double (1 / 5) = Fin (3602879701896397 / 18014398509481984)"
  by (rule double_in_binade [where k = "- 3"]) (simp_all add: powr_minus round_half_even_def)

lemma double_dollars: "double (10543 / 10) = Fin (4636860436656947 / 4398046511104)"
  by (rule double_in_binade [where k = 10]) (simp_all add: powr_minus round_half_even_def)

lemma dollars_of_weight:
  "np_round 2 (d_mul (Fin (3242591731706757 / 72057594037927936)) (Fin 23429)) =
     Fin (4636860436656947 / 4398046511104)"
proof -
  have "d_mul (Fin (3242591731706757 / 72057594037927936)) (Fin 23429) =
      Fin (4636882426889503 / 4398046511104)"
    by (rule d_mul_step, rule double_in_binade [where k = 10])
       (simp_all add: powr_minus round_half_even_def)
  moreover have "np_round 2 (Fin (4636882426889503 / 4398046511104)) =
      Fin (4636860436656947 / 4398046511104)"
  proof (rule np_round2_step [where b = "210861 / 2" and n = 105430])
    show "double (4636882426889503 / 4398046511104 * 100) = Fin (210861 / 2)"
      by (rule double_in_binade [where k = 16]) (simp_all add: powr_minus round_half_even_def)
    show "round_half_even (210861 / 2) = 105430"
      by (simp add: round_half_even_def)
    show "double (real_of_int 105430 / 100) = Fin (4636860436656947 / 4398046511104)"
      by (rule double_in_binade [where k = 10]) (simp_all add: powr_minus round_half_even_def)
  qed
  ultimately show ?thesis by simp
qed

lemma price_rounded:
  "np_round 2 (Fin (3602879701896397 / 18014398509481984)) =
     Fin (3602879701896397 / 18014398509481984)"
proof (rule np_round2_step [where b = 20 and n = 20])
  show "double (3602879701896397 / 18014398509481984 * 100) = Fin 20"
    by (rule double_in_binade [where k = 4]) (simp_all add: powr_minus round_half_even_def)
  show "round_half_even 20 = 20"
    by (simp add: round_half_even_def)
  show "double (real_of_int 20 / 100) = Fin (3602879701896397 / 18014398509481984)"
    by (rule double_in_binade [where k = "- 3"]) (simp_all add: powr_minus round_half_even_def)
qed

lemma weight_rounded:
  "np_round 2 (d_mul (Fin (3242591731706757 / 72057594037927936)) (Fin 100)) = Fin (9 / 2)"
proof -
  have "d_mul (Fin (3242591731706757 / 72057594037927936)) (Fin 100) = Fin (9 / 2)"
    by (rule d_mul_step, rule double_in_binade [where k = 2])
       (simp_all add: powr_minus round_half_even_def)
  moreover have "np_round 2 (Fin (9 / 2)) = Fin (9 / 2)"
  proof (rule np_round2_step [where b = 450 and n = 450])
    show "double (9 / 2 * 100) = Fin 450"
      by (rule double_in_binade [where k = 8]) (simp_all add: powr_minus round_half_even_def)
    show "round_half_even 450 = 450"
      by (simp add: round_half_even_def)
    show "double (real_of_int 450 / 100) = Fin (9 / 2)"
      by (rule double_in_binade [where k = 2]) (simp_all add: powr_minus round_half_even_def)
  qed
  ultimately show ?thesis by simp
qed

lemma shares_of_quotient:
  "np_round 0 (d_div (Fin (4636860436656947 / 4398046511104))
      (Fin (3602879701896397 / 18014398509481984))) = Fin 5271"
proof -
  have "d_div (Fin (4636860436656947 / 4398046511104))
      (Fin (3602879701896397 / 18014398509481984)) = Fin (5796075545821183 / 1099511627776)"
    by (rule d_div_step, simp, rule double_in_binade [where k = 12])
       (simp_all add: powr_minus round_half_even_def)
  then show ?thesis
    by (simp add: np_round_def round_half_even_def)
qed

lemma double_quotient_below_half:
  "calculate_allocation [(''X'', Fin (9 / 200))] \<lparr>columns = [''X''], rows = [[Fin (1 / 5)]]\<rparr>
      (Fin 23429) =
     Inr [\<lparr>symbol = ''X'', weight_pct = Fin (9 / 2), latest_price = as_double (Fin (1 / 5)),
           dollar_allocation = as_double (Fin (10543 / 10)), shares_to_buy = 5271\<rparr>]
   \<and> round_half_even ((10543 / 10) / (1 / 5)) = 5272"
proof -
  have pv: "double 23429 = Fin 23429" by simp
  have ri: "reindex [(''X'', Fin (1 / 5))] ''X'' = Fin (1 / 5)" by (simp add: reindex_def)
  have "float_row [(''X'', Fin (1 / 5))] (Fin 23429) (''X'', Fin (9 / 200)) =
      (''X'', Fin (9 / 2), as_double (Fin (1 / 5)), as_double (Fin (10543 / 10)), Fin 5271)"
    by (simp only: float_row_def Let_def fst_conv snd_conv ri pv as_double.simps
        double_weight double_price double_dollars dollars_of_weight price_rounded
        weight_rounded shares_of_quotient)
  then have "calculate_allocation [(''X'', Fin (9 / 200))]
      \<lparr>columns = [''X''], rows = [[Fin (1 / 5)]]\<rparr> (Fin 23429) =
     Inr [\<lparr>symbol = ''X'', weight_pct = Fin (9 / 2), latest_price = as_double (Fin (1 / 5)),
           dollar_allocation = as_double (Fin (10543 / 10)), shares_to_buy = 5271\<rparr>]"
    by (simp add: calculate_allocation_weights int64_cast_def sort_values_desc_def
        del: as_double.simps)
  moreover have "round_half_even ((10543 / 10) / (1 / 5)) = 5272"
    by (simp add: round_half_even_def)
  ultimately show ?thesis by simp
qed

text \<open>
  A share count past the 64-bit integers: every value of this run is a double, the
  quotient is \<open>10^19\<close>, and the cast gives the least 64-bit integer. Nothing is raised.
\<close>

lemma double_1e19: "double 10000000000000000000 = Fin 10000000000000000000"
  using double_exact [of 10000000000000000000 "5 ^ 19" 19] by simp

lemma double_1e21: "double 1000000000000000000000 = Fin 1000000000000000000000"
  using double_exact [of 1000000000000000000000 "5 ^ 21" 21] by simp

lemma share_count_out_of_range:
  "calculate_allocation [(''X'', Fin 1)] \<lparr>columns = [''X''], rows = [[Fin 1]]\<rparr>
      (Fin 10000000000000000000) =
     Inr [\<lparr>symbol = ''X'', weight_pct = Fin 100, latest_price = Fin 1,
           dollar_allocation = Fin 10000000000000000000,
           shares_to_buy = - 9223372036854775808\<rparr>]"
  by (simp add: calculate_allocation_def iloc_last_def frame_index_def float_row_def reindex_def
      np_round_def d_mul_def d_div_def round_half_even_def int64_cast_def sort_values_desc_def
      double_1e19 double_1e21)

section \<open>Facts about dicts\<close>

lemma map_fst_dict_set:
  "map fst (dict_set d k v) = (if k \<in> set (map fst d) then map fst d else map fst d @ [k])"
  by (auto simp: dict_set_def split: prod.splits)

lemma distinct_dict_set: "distinct (map fst d) \<Longrightarrow> distinct (map fst (dict_set d k v))"
  by (simp add: map_fst_dict_set)

lemma map_of_replace:
  "map_of (map (\<lambda>(k', v'). if k' = k then (k', v) else (k', v')) d) x =
     (if x = k then (if k \<in> fst ` set d then Some v else None) else map_of d x)"
  by (induction d) (force split: prod.splits)+

lemma map_of_dict_set: "map_of (dict_set d k v) x = (if x = k then Some v else map_of d x)"
proof (cases "k \<in> fst ` set d")
  case True
  then show ?thesis by (simp add: dict_set_def map_of_replace)
next
  case False
  then have "map_of d k = None" by (simp add: map_of_eq_None_iff)
  with False show ?thesis
    by (simp add: dict_set_def map_add_def split: option.splits)
qed


section \<open>Facts about the volatility loop\<close>

lemma volatility_loop_out:
  "snd (volatility_loop R tg tv out) =
     out @ map (\<lambda>g. warning_line (fst g)) (filter (\<lambda>g. \<not> survives R g) tg)"
  by (induction R tg tv out rule: volatility_loop.induct) (simp_all add: Let_def survives_def)

lemma volatility_loop_distinct:
  "distinct (map fst tv) \<Longrightarrow> distinct (map fst (fst (volatility_loop R tg tv out)))"
  by (induction R tg tv out rule: volatility_loop.induct)
     (simp_all add: Let_def distinct_dict_set)



lemma calculate_theme_volatility_distinct:
  "distinct (map fst (fst (calculate_theme_volatility fm pd tg)))"
  by (simp add: calculate_theme_volatility_def Let_def volatility_loop_distinct)

lemma columns_returns [simp]: "columns (dropna (pct_change fm pd)) = columns pd"
  by (simp add: dropna_def pct_change_def)

section \<open>Facts about the multipliers\<close>

lemma conviction_loop_map:
  "distinct ks \<Longrightarrow>
   conviction_loop ks m iv =
     map (\<lambda>kv. if fst kv \<in> set ks then adjust (Some m) kv else kv) iv"
proof (induction ks m iv rule: conviction_loop.induct)
  case (1 conviction_multipliers inverse_vol)
  then show ?case by simp
next
  case (2 theme rest m iv)
  show ?case
  proof (cases "map_of m theme")
    case None
    with 2 show ?thesis
      by (auto simp: adjust_def)
  next
    case (Some c)
    with 2 have "conviction_loop (theme # rest) m iv =
        map (\<lambda>kv. if fst kv \<in> set rest then adjust (Some m) kv else kv) (series_mul_at iv theme c)"
      by simp
    also have "\<dots> = map (\<lambda>kv. if fst kv \<in> set (theme # rest) then adjust (Some m) kv else kv) iv"
      using 2(3) Some by (auto simp: series_mul_at_def adjust_def split: prod.splits)
    finally show ?thesis .
  qed
qed

lemma fst_adjust [simp]: "fst (adjust cm kv) = fst kv"
  by (auto simp: adjust_def split: option.splits)

lemma apply_conviction_map:
  "distinct (map fst iv) \<Longrightarrow> apply_conviction cm iv = map (adjust cm) iv"
proof (cases cm)
  case None
  then show ?thesis by (simp add: apply_conviction_def adjust_def map_idI)
next
  case (Some m)
  assume d: "distinct (map fst iv)"
  show ?thesis
  proof (cases "m = []")
    case True
    with Some show ?thesis by (simp add: apply_conviction_def adjust_def map_idI)
  next
    case False
    with Some d show ?thesis by (simp add: apply_conviction_def conviction_loop_map)
  qed
qed

lemma map_fst_adjust [simp]: "map fst (map (adjust cm) iv) = map fst iv"
  by (simp add: comp_def)

lemma map_fst_inverse_vol_of [simp]: "map fst (inverse_vol_of tv) = map fst tv"
  by (auto simp: inverse_vol_of_def)

lemma map_fst_normalize [simp]: "map fst (normalize iv) = map fst iv"
  by (auto simp: normalize_def Let_def)

lemma map_fst_theme_weights_of:
  "distinct (map fst tv) \<Longrightarrow> map fst (theme_weights_of tv cm) = map fst tv"
  by (simp add: theme_weights_of_def apply_conviction_map comp_def)

section \<open>Facts about sums\<close>





lemma fl_mul_one [simp]: "fl_mul v (Fin 1) = v"
  by (cases v) (simp_all add: signed_inf_def)

lemma adjust_multiplier: "adjust cm kv = (fst kv, fl_mul (snd kv) (multiplier_of cm (fst kv)))"
  by (cases kv) (simp add: adjust_def multiplier_of_def split: option.splits)







section \<open>Facts about calculate_weights\<close>

lemma valid_tickers_of_returns [simp]:
  "valid_tickers_of (dropna (pct_change fm pd)) tickers = valid_tickers_of pd tickers"
  by (simp add: valid_tickers_of_def)


lemma calculate_weights_parts:
  assumes "calculate_weights fm tg pd cm = ((tw, thw, tv), out)"
  shows "tv = fst (calculate_theme_volatility fm pd tg)"
    and "out = snd (calculate_theme_volatility fm pd tg)"
    and "thw = theme_weights_of tv cm"
    and "tw = ticker_loop tg thw []"
  using assms by (auto simp: calculate_weights_def Let_def split: prod.splits)

lemma ex_volatility:
  "calculate_theme_volatility fm ex_prices ex_themes =
     ([(''A'', Fin (sqrt (1 / 2) * sqrt 252)), (''B'', Fin (sqrt (1 / 2) * sqrt 252))],
      [''Warning: No valid data for theme C''])"
  by (cases fm; simp add: calculate_theme_volatility_def ex_prices_def ex_themes_def
      pct_change_def dropna_def fill_def ffill_def fl_sub_def series_std_def series_mean_def
      dropna_values_def cell_def dict_set_def warning_line_def valid_tickers_of_def
      theme_returns_of_def annualized_volatility_def)

section \<open>Raising one multiplier\<close>

lemma map_of_keyed:
  "distinct (map fst tv) \<Longrightarrow> (k, v) \<in> set tv \<Longrightarrow>
   map_of (map (\<lambda>kv. (fst kv, f kv)) tv) k = Some (f (k, v))"
proof (induction tv)
  case Nil
  then show ?case by simp
next
  case (Cons a tv)
  then show ?case by (cases a) (auto simp: rev_image_eqI)
qed





section \<open>The multipliers are not validated\<close>

lemma adjust_cong:
  "map_of m (fst kv) = map_of m' (fst kv) \<Longrightarrow> adjust (Some m) kv = adjust (Some m') kv"
  by (simp add: adjust_def)

lemma adjust_unknown:
  "map_of m (fst kv) = None \<Longrightarrow> adjust (Some m) kv = adjust None kv"
  by (simp add: adjust_def)

lemma theme_weights_of_adjust:
  "distinct (map fst tv) \<Longrightarrow>
   theme_weights_of tv cm = normalize (map (adjust cm) (inverse_vol_of tv))"
  by (simp add: theme_weights_of_def apply_conviction_map)

lemma calculate_weights_eq:
  "calculate_weights fm tg pd cm =
     ((ticker_loop tg (theme_weights_of (fst (calculate_theme_volatility fm pd tg)) cm) [],
       theme_weights_of (fst (calculate_theme_volatility fm pd tg)) cm,
       fst (calculate_theme_volatility fm pd tg)),
      snd (calculate_theme_volatility fm pd tg))"
  by (simp add: calculate_weights_def Let_def split: prod.splits)

lemma adjusted_inverse_keys:
  "(\<forall>k \<in> fst ` set tv. map_of m' k = map_of m k) \<Longrightarrow>
   map (adjust (Some m')) (inverse_vol_of tv) = map (adjust (Some m)) (inverse_vol_of tv)"
  by (rule map_cong [OF refl]) (auto simp: inverse_vol_of_def intro!: adjust_cong)

lemma adjusted_inverse_unknown:
  "(\<forall>k \<in> fst ` set tv. map_of m k = None) \<Longrightarrow>
   map (adjust None) (inverse_vol_of tv) = map (adjust (Some m)) (inverse_vol_of tv)"
  by (rule map_cong [OF refl]) (auto simp: inverse_vol_of_def adjust_unknown)

text \<open>
  Claim C10: calculate_weights has no check and no raise on its multipliers. Whatever
  dict is given, it prints what calculate_theme_volatility prints and nothing more; the
  weights are the normalised inverse volatilities, each multiplied by the entry of its
  theme, whatever its sign; an entry for a surviving theme with volatility \<open>v\<close> and
  multiplier \<open>c\<close> puts \<open>(1 / v) * c\<close> into the normalisation; and two dicts that agree
  on the surviving themes give the same result, so entries under any other key (a
  dropped theme, an unknown name) change nothing, and a dict with no entry for a
  surviving theme gives the result of no dict at all.
\<close>

theorem conviction_multipliers_unvalidated:
  assumes run: "calculate_weights fm theme_groups price_data (Some m) =
      ((ticker_weights, theme_weights, theme_volatility), out)"
  shows "out = snd (calculate_theme_volatility fm price_data theme_groups) \<and>
         theme_weights = normalize (map (adjust (Some m)) (inverse_vol_of theme_volatility)) \<and>
         (\<forall>k v c. (k, v) \<in> set theme_volatility \<and> map_of m k = Some c \<longrightarrow>
            map_of (map (adjust (Some m)) (inverse_vol_of theme_volatility)) k =
              Some (fl_mul (fl_div (Fin 1) v) c)) \<and>
         ((\<forall>k \<in> fst ` set theme_volatility. map_of m' k = map_of m k) \<longrightarrow>
            calculate_weights fm theme_groups price_data (Some m') =
            calculate_weights fm theme_groups price_data (Some m)) \<and>
         ((\<forall>k \<in> fst ` set theme_volatility. map_of m k = None) \<longrightarrow>
            calculate_weights fm theme_groups price_data None =
            calculate_weights fm theme_groups price_data (Some m))"
proof -
  note parts = calculate_weights_parts [OF run]
  have d: "distinct (map fst theme_volatility)"
    unfolding parts(1) by (rule calculate_theme_volatility_distinct)
  have tw: "\<And>cm. theme_weights_of theme_volatility cm =
      normalize (map (adjust cm) (inverse_vol_of theme_volatility))"
    by (rule theme_weights_of_adjust [OF d])
  have a: "theme_weights = normalize (map (adjust (Some m)) (inverse_vol_of theme_volatility))"
    unfolding parts(3) by (rule tw)
  have b: "\<forall>k v c. (k, v) \<in> set theme_volatility \<and> map_of m k = Some c \<longrightarrow>
      map_of (map (adjust (Some m)) (inverse_vol_of theme_volatility)) k =
        Some (fl_mul (fl_div (Fin 1) v) c)"
  proof (intro allI impI)
    fix k v c assume h: "(k, v) \<in> set theme_volatility \<and> map_of m k = Some c"
    let ?f = "\<lambda>kv. snd (adjust (Some m) (fst kv, fl_div (Fin 1) (snd kv)))"
    have "map (adjust (Some m)) (inverse_vol_of theme_volatility) =
        map (\<lambda>kv. (fst kv, ?f kv)) theme_volatility"
      by (simp add: inverse_vol_of_def case_prod_unfold adjust_multiplier)
    moreover have "map_of (map (\<lambda>kv. (fst kv, ?f kv)) theme_volatility) k = Some (?f (k, v))"
      using h by (intro map_of_keyed [OF d]) simp
    ultimately show "map_of (map (adjust (Some m)) (inverse_vol_of theme_volatility)) k =
        Some (fl_mul (fl_div (Fin 1) v) c)"
      using h by (simp add: adjust_def)
  qed
  have c: "(\<forall>k \<in> fst ` set theme_volatility. map_of m' k = map_of m k) \<longrightarrow>
      calculate_weights fm theme_groups price_data (Some m') =
      calculate_weights fm theme_groups price_data (Some m)"
  proof
    assume "\<forall>k \<in> fst ` set theme_volatility. map_of m' k = map_of m k"
    then have "theme_weights_of theme_volatility (Some m') =
        theme_weights_of theme_volatility (Some m)"
      by (simp only: tw adjusted_inverse_keys)
    then show "calculate_weights fm theme_groups price_data (Some m') =
      calculate_weights fm theme_groups price_data (Some m)"
      unfolding calculate_weights_eq parts(1) [symmetric] by simp
  qed
  have e: "(\<forall>k \<in> fst ` set theme_volatility. map_of m k = None) \<longrightarrow>
      calculate_weights fm theme_groups price_data None =
      calculate_weights fm theme_groups price_data (Some m)"
  proof
    assume "\<forall>k \<in> fst ` set theme_volatility. map_of m k = None"
    then have "theme_weights_of theme_volatility None =
        theme_weights_of theme_volatility (Some m)"
      by (simp only: tw adjusted_inverse_unknown)
    then show "calculate_weights fm theme_groups price_data None =
      calculate_weights fm theme_groups price_data (Some m)"
      unfolding calculate_weights_eq parts(1) [symmetric] by simp
  qed
  from parts(2) a b c e show ?thesis by blast
qed

theorem conviction_multipliers_unvalidated_witness:
  "calculate_weights Pad ex_themes ex_prices (Some [(''A'', Fin (- 2))]) =
     calculate_weights Pad ex_themes ex_prices
       (Some [(''C'', Fin 3), (''A'', Fin (- 2)), (''Q'', Fin 0)]) \<and>
   map_of (map (adjust (Some [(''C'', Fin 3), (''A'', Fin (- 2)), (''Q'', Fin 0)]))
     (inverse_vol_of [(''A'', Fin (sqrt (1 / 2) * sqrt 252)), (''B'', Fin (sqrt (1 / 2) * sqrt 252))]))
     ''A'' = Some (fl_mul (fl_div (Fin 1) (Fin (sqrt (1 / 2) * sqrt 252))) (Fin (- 2)))"
proof -
  let ?tv = "[(''A'', Fin (sqrt (1 / 2) * sqrt 252)), (''B'', Fin (sqrt (1 / 2) * sqrt 252))]"
  let ?m = "[(''C'', Fin 3), (''A'', Fin (- 2)), (''Q'', Fin 0)]"
  have run: "calculate_weights Pad ex_themes ex_prices (Some ?m) =
      ((ticker_loop ex_themes (theme_weights_of ?tv (Some ?m)) [], theme_weights_of ?tv (Some ?m), ?tv),
       [''Warning: No valid data for theme C''])"
    by (simp add: calculate_weights_def ex_volatility Let_def)
  have same: "\<forall>k \<in> fst ` set ?tv. map_of [(''A'', Fin (- 2))] k = map_of ?m k" by simp
  have mem: "(''A'', Fin (sqrt (1 / 2) * sqrt 252)) \<in> set ?tv \<and> map_of ?m ''A'' = Some (Fin (- 2))"
    by simp
  from conviction_multipliers_unvalidated [OF run, of "[(''A'', Fin (- 2))]"] same mem
  show ?thesis by blast
qed

section \<open>Ticker weights\<close>

lemma map_of_fold_dict_set:
  "map_of (fold (\<lambda>ticker d. dict_set d ticker x) tickers acc) t =
     (if t \<in> set tickers then Some x else map_of acc t)"
  by (induction tickers arbitrary: acc) (simp_all add: map_of_dict_set)

lemma distinct_fold_dict_set:
  "distinct (map fst acc) \<Longrightarrow>
   distinct (map fst (fold (\<lambda>ticker d. dict_set d ticker x) tickers acc))"
  by (induction tickers arbitrary: acc) (simp_all add: distinct_dict_set)

lemma ticker_loop_distinct:
  "distinct (map fst acc) \<Longrightarrow> distinct (map fst (ticker_loop tg thw acc))"
  by (induction tg thw acc rule: ticker_loop.induct)
     (simp_all add: Let_def distinct_fold_dict_set split: option.splits)

lemma find_append:
  "find P (xs @ ys) = (case find P xs of None \<Rightarrow> find P ys | Some x \<Rightarrow> Some x)"
  by (induction xs) simp_all

lemma ticker_loop_lookup:
  "map_of (ticker_loop tg thw acc) t =
     (case find (\<lambda>g. map_of thw (fst g) \<noteq> None \<and> t \<in> set (snd g)) (rev tg) of
        None \<Rightarrow> map_of acc t
      | Some g \<Rightarrow> Some (fl_div (reindex thw (fst g)) (Fin (real (length (snd g))))))"
proof (induction tg thw acc rule: ticker_loop.induct)
  case (1 theme_weights ticker_weights)
  then show ?case by simp
next
  case (2 theme tickers rest theme_weights ticker_weights)
  show ?case
  proof (cases "map_of theme_weights theme")
    case None
    with 2(1) show ?thesis
      by (simp add: find_append split: option.splits)
  next
    case (Some w)
    with 2(2) [OF Some refl] show ?thesis
      by (simp add: find_append map_of_fold_dict_set reindex_def Let_def split: option.splits)
  qed
qed

text \<open>
  Claim C2: take a theme with a weight \<open>w\<close> and a ticker \<open>t\<close> of its list, such that no
  theme processed after it has both a weight and \<open>t\<close> in its list. Then the ticker
  weights hold \<open>w / k\<close> for \<open>t\<close>, where \<open>k\<close> is the length of the theme's whole list,
  the tickers without prices included. So every ticker of a weighted theme gets
  \<open>w / k\<close>, and for a ticker of several themes the value of the last weighted theme
  stands: the ticker weights hold one entry per ticker, overwritten and never added to.
\<close>

theorem ticker_weights_equal_split:
  assumes run: "calculate_weights fm theme_groups price_data conviction_multipliers =
      ((ticker_weights, theme_weights, theme_volatility), out)"
    and split: "theme_groups = before @ (theme, tickers) # after"
    and w: "map_of theme_weights theme = Some w"
    and t: "t \<in> set tickers"
    and last: "\<forall>g \<in> set after. t \<in> set (snd g) \<longrightarrow> map_of theme_weights (fst g) = None"
  shows "map_of ticker_weights t = Some (fl_div w (Fin (real (length tickers)))) \<and>
         distinct (map fst ticker_weights)"
proof -
  let ?P = "\<lambda>g. map_of theme_weights (fst g) \<noteq> None \<and> t \<in> set (snd g)"
  note parts = calculate_weights_parts [OF run]
  from last have "find ?P (rev after) = None"
    by (auto simp: find_None_iff)
  moreover from w t have "?P (theme, tickers)" by simp
  ultimately have "find ?P (rev theme_groups) = Some (theme, tickers)"
    unfolding split by (simp add: find_append)
  with w have "map_of ticker_weights t = Some (fl_div w (Fin (real (length tickers))))"
    unfolding parts(4) ticker_loop_lookup by (simp add: reindex_def)
  moreover have "distinct (map fst ticker_weights)"
    unfolding parts(4) by (rule ticker_loop_distinct) simp
  ultimately show ?thesis by simp
qed

lemma ex_theme_weights:
  "theme_weights_of
     [(''A'', Fin (sqrt (1 / 2) * sqrt 252)), (''B'', Fin (sqrt (1 / 2) * sqrt 252))] None =
   [(''A'', Fin (1 / 2)), (''B'', Fin (1 / 2))]"
  by (simp add: theme_weights_of_def inverse_vol_of_def apply_conviction_def normalize_def
      series_sum_def dropna_values_def)

lemma shared_volatility:
  "calculate_theme_volatility fm ex_prices shared_themes =
     ([(''A'', Fin (sqrt (1 / 2) * sqrt 252)), (''B'', Fin (sqrt (1 / 2) * sqrt 252))],
      [''Warning: No valid data for theme C''])"
  by (cases fm; simp add: calculate_theme_volatility_def ex_prices_def shared_themes_def
      pct_change_def dropna_def fill_def ffill_def fl_sub_def series_std_def series_mean_def
      dropna_values_def cell_def dict_set_def warning_line_def valid_tickers_of_def
      theme_returns_of_def annualized_volatility_def Let_def)

text \<open>
  With the themes A: X, Q and B: Z, Q of weight 1/2 each, Q holds the quarter of B, in
  the place where A put it, and the ticker weights sum to 3/4.
\<close>

lemma shared_ticker_weights:
  "ticker_loop shared_themes [(''A'', Fin (1 / 2)), (''B'', Fin (1 / 2))] [] =
     [(''X'', Fin (1 / 4)), (''Q'', Fin (1 / 4)), (''Z'', Fin (1 / 4))]"
  by (simp add: shared_themes_def dict_set_def Let_def)

theorem ticker_weights_equal_split_witness:
  "map_of (ticker_loop shared_themes [(''A'', Fin (1 / 2)), (''B'', Fin (1 / 2))] []) ''Q'' =
     Some (fl_div (Fin (1 / 2)) (Fin (real (length [''Z'', ''Q'']))))"
proof -
  let ?tv = "[(''A'', Fin (sqrt (1 / 2) * sqrt 252)), (''B'', Fin (sqrt (1 / 2) * sqrt 252))]"
  let ?thw = "[(''A'', Fin (1 / 2)), (''B'', Fin (1 / 2))]"
  have run: "calculate_weights NoFill shared_themes ex_prices None =
      ((ticker_loop shared_themes ?thw [], ?thw, ?tv), [''Warning: No valid data for theme C''])"
    by (simp add: calculate_weights_def shared_volatility ex_theme_weights Let_def)
  have split: "shared_themes = [(''A'', [''X'', ''Q''])] @ (''B'', [''Z'', ''Q'']) # [(''C'', [''Q''])]"
    by (simp add: shared_themes_def)
  have w: "map_of ?thw ''B'' = Some (Fin (1 / 2))" by simp
  have t: "''Q'' \<in> set [''Z'', ''Q'']" by simp
  have last: "\<forall>g \<in> set [(''C'', [''Q''])]. ''Q'' \<in> set (snd g) \<longrightarrow> map_of ?thw (fst g) = None"
    by simp
  from ticker_weights_equal_split [OF run split w t last] show ?thesis by blast
qed

lemma ex_ticker_weights:
  "ticker_loop ex_themes [(''A'', Fin (1 / 2)), (''B'', Fin (1 / 2))] [] =
     [(''X'', Fin (1 / 2)), (''Z'', Fin (1 / 4)), (''Q'', Fin (1 / 4))]"
  by (simp add: ex_themes_def dict_set_def Let_def)

section \<open>A zero volatility\<close>

lemma theme_weight_lookup:
  assumes d: "distinct (map fst tv)" and m: "(k, v) \<in> set tv"
  shows "map_of (theme_weights_of tv cm) k =
     Some (fl_div (fl_mul (fl_div (Fin 1) v) (multiplier_of cm k))
       (series_sum (map snd (map (adjust cm) (inverse_vol_of tv)))))"
proof -
  let ?T = "series_sum (map snd (map (adjust cm) (inverse_vol_of tv)))"
  let ?f = "\<lambda>kv. fl_div (fl_mul (fl_div (Fin 1) (snd kv)) (multiplier_of cm (fst kv))) ?T"
  have "theme_weights_of tv cm = map (\<lambda>kv. (fst kv, ?f kv)) tv"
    unfolding theme_weights_of_adjust [OF d]
    by (simp add: normalize_def inverse_vol_of_def case_prod_unfold adjust_multiplier Let_def)
  moreover have "map_of (map (\<lambda>kv. (fst kv, ?f kv)) tv) k = Some (?f (k, v))"
    by (rule map_of_keyed [OF d m])
  ultimately show ?thesis by simp
qed

lemma fl_sum_PInf: "PInf \<in> set ys \<Longrightarrow> fl_sum ys = PInf \<or> fl_sum ys = NaN"
proof (induction ys)
  case Nil
  then show ?case by simp
next
  case (Cons y ys)
  show ?case
  proof (cases "y = PInf")
    case True
    then show ?thesis by (cases "fl_sum ys") simp_all
  next
    case False
    with Cons have "fl_sum ys = PInf \<or> fl_sum ys = NaN" by simp
    then show ?thesis by (cases y) auto
  qed
qed

lemma fl_sum_NInf: "NInf \<in> set ys \<Longrightarrow> fl_sum ys = NInf \<or> fl_sum ys = NaN"
proof (induction ys)
  case Nil
  then show ?case by simp
next
  case (Cons y ys)
  show ?case
  proof (cases "y = NInf")
    case True
    then show ?thesis by (cases "fl_sum ys") simp_all
  next
    case False
    with Cons have "fl_sum ys = NInf \<or> fl_sum ys = NaN" by simp
    then show ?thesis by (cases y) auto
  qed
qed

lemma infinite_share_is_nan:
  assumes "x \<in> set xs" and "\<not> is_finite x"
  shows "fl_div x (series_sum xs) = NaN"
proof (cases x)
  case (Fin a)
  with assms show ?thesis by simp
next
  case PInf
  with assms have "PInf \<in> set (dropna_values xs)" by (simp add: dropna_values_def)
  then have "series_sum xs = PInf \<or> series_sum xs = NaN"
    unfolding series_sum_def by (rule fl_sum_PInf)
  with PInf show ?thesis by auto
next
  case NInf
  with assms have "NInf \<in> set (dropna_values xs)" by (simp add: dropna_values_def)
  then have "series_sum xs = NInf \<or> series_sum xs = NaN"
    unfolding series_sum_def by (rule fl_sum_NInf)
  with NInf show ?thesis by auto
next
  case NaN
  then show ?thesis by simp
qed

lemma fl_mul_PInf_not_finite: "\<not> is_finite (fl_mul PInf c)"
  by (cases c) (simp_all add: signed_inf_def)

text \<open>
  Claim C5, as the code has it: a theme whose volatility is exactly 0 raises nothing in
  calculate_weights. Its inverse volatility is \<open>+inf\<close>, and the weight returned for
  the theme is NaN, whatever the multipliers: its share is infinite and so is the sum
  (or the sum is NaN), or its share is NaN already, when its multiplier is 0 or NaN.
\<close>

theorem zero_volatility_gives_nan:
  assumes run: "calculate_weights fm theme_groups price_data conviction_multipliers =
      ((ticker_weights, theme_weights, theme_volatility), out)"
    and zero: "(theme, Fin 0) \<in> set theme_volatility"
  shows "map_of (inverse_vol_of theme_volatility) theme = Some PInf \<and>
         map_of theme_weights theme = Some NaN"
proof -
  note parts = calculate_weights_parts [OF run]
  have d: "distinct (map fst theme_volatility)"
    unfolding parts(1) by (rule calculate_theme_volatility_distinct)
  let ?adj = "map (adjust conviction_multipliers) (inverse_vol_of theme_volatility)"
  let ?x = "fl_mul (fl_div (Fin 1) (Fin 0)) (multiplier_of conviction_multipliers theme)"
  have inv: "map_of (inverse_vol_of theme_volatility) theme = Some PInf"
    using map_of_keyed [OF d zero, of "\<lambda>kv. fl_div (Fin 1) (snd kv)"]
    by (simp add: inverse_vol_of_def case_prod_unfold signed_inf_def)
  have "(theme, ?x) \<in> set ?adj"
    using zero by (force simp: inverse_vol_of_def adjust_multiplier)
  then have "snd (theme, ?x) \<in> snd ` set ?adj" by (rule imageI)
  then have "?x \<in> set (map snd ?adj)" by (simp only: set_map snd_conv)
  moreover have "\<not> is_finite ?x"
    by (simp add: signed_inf_def fl_mul_PInf_not_finite)
  ultimately have "fl_div ?x (series_sum (map snd ?adj)) = NaN"
    by (rule infinite_share_is_nan)
  with theme_weight_lookup [OF d zero, of conviction_multipliers]
  have "map_of theme_weights theme = Some NaN"
    unfolding parts(3) by simp
  with inv show ?thesis by simp
qed

lemma flat_volatility:
  "calculate_theme_volatility fm flat_prices flat_themes =
     ([(''A'', Fin 0), (''B'', Fin (sqrt (1 / 2) * sqrt 252))], [])"
  by (cases fm; simp add: calculate_theme_volatility_def flat_prices_def flat_themes_def
      pct_change_def dropna_def fill_def ffill_def fl_sub_def series_std_def series_mean_def
      dropna_values_def cell_def dict_set_def warning_line_def valid_tickers_of_def
      theme_returns_of_def annualized_volatility_def Let_def)

text \<open>
  Claim C5 as stated fails: with a ticker whose price never moves, theme A has the
  volatility 0, and calculate_weights returns its three results: the weight NaN for A
  and its ticker, and the weight 0 for the other theme.
\<close>

theorem zero_volatility_counterexample:
  "calculate_weights Pad flat_themes flat_prices None =
     (([(''X'', NaN), (''Z'', Fin 0)], [(''A'', NaN), (''B'', Fin 0)],
       [(''A'', Fin 0), (''B'', Fin (sqrt (1 / 2) * sqrt 252))]), []) \<and>
   calculate_weights NoFill flat_themes flat_prices None =
     (([(''X'', NaN), (''Z'', Fin 0)], [(''A'', NaN), (''B'', Fin 0)],
       [(''A'', Fin 0), (''B'', Fin (sqrt (1 / 2) * sqrt 252))]), [])"
  unfolding calculate_weights_eq flat_volatility
  by (simp add: theme_weights_of_def inverse_vol_of_def
      apply_conviction_def normalize_def series_sum_def dropna_values_def signed_inf_def
      flat_themes_def dict_set_def Let_def)

theorem zero_volatility_gives_nan_witness:
  "map_of (inverse_vol_of [(''A'', Fin 0), (''B'', Fin (sqrt (1 / 2) * sqrt 252))]) ''A'' = Some PInf \<and>
   map_of (theme_weights_of [(''A'', Fin 0), (''B'', Fin (sqrt (1 / 2) * sqrt 252))]
     (Some [(''A'', Fin (- 1))])) ''A'' = Some NaN"
proof -
  let ?tv = "[(''A'', Fin 0), (''B'', Fin (sqrt (1 / 2) * sqrt 252))]"
  let ?cm = "Some [(''A'', Fin (- 1))]"
  have run: "calculate_weights Pad flat_themes flat_prices ?cm =
      ((ticker_loop flat_themes (theme_weights_of ?tv ?cm) [], theme_weights_of ?tv ?cm, ?tv), [])"
    by (simp add: calculate_weights_def flat_volatility Let_def)
  have zero: "(''A'', Fin 0) \<in> set ?tv" by simp
  from zero_volatility_gives_nan [OF run zero] show ?thesis .
qed

text \<open>
  What the other themes get depends on the multipliers. With the multiplier 0 on the
  theme of volatility 0 its share is \<open>inf * 0\<close>, a NaN that the sum skips, and the
  other theme of the run above has the weight 1 instead of 0.
\<close>

lemma zero_volatility_zero_multiplier:
  "calculate_weights fm flat_themes flat_prices (Some [(''A'', Fin 0)]) =
     (([(''X'', NaN), (''Z'', Fin 1)], [(''A'', NaN), (''B'', Fin 1)],
       [(''A'', Fin 0), (''B'', Fin (sqrt (1 / 2) * sqrt 252))]), [])"
  unfolding calculate_weights_eq flat_volatility
  by (simp add: theme_weights_of_def inverse_vol_of_def series_mul_at_def
      apply_conviction_def normalize_def series_sum_def dropna_values_def signed_inf_def
      flat_themes_def dict_set_def Let_def)

section \<open>A price table with fewer than two rows\<close>

lemma length_ffill_from: "length (ffill_from prev rs) = length rs"
  by (induction rs arbitrary: prev) (simp_all add: Let_def)

lemma length_fill: "length (fill fm rs) = length rs"
  by (cases fm; cases rs) (simp_all add: fill_def ffill_def length_ffill_from)

lemma length_pct_rows: "length (pct_rows prev rs) = length rs"
  by (induction rs arbitrary: prev) simp_all

lemma length_pct_change: "length (rows (pct_change fm df)) = length (rows df)"
proof (cases "fill fm (rows df)")
  case Nil
  then show ?thesis using length_fill [of fm "rows df"] by (simp add: pct_change_def)
next
  case (Cons r rs)
  then show ?thesis
    using length_fill [of fm "rows df"] by (simp add: pct_change_def length_pct_rows)
qed

lemma length_returns: "length (rows (dropna (pct_change fm df))) \<le> length (rows df)"
  using length_filter_le [of "\<lambda>r. \<not> list_ex is_nan r" "rows (pct_change fm df)"]
  by (simp add: dropna_def length_pct_change)

lemma series_std_short: "length xs < 2 \<Longrightarrow> series_std xs = NaN"
proof -
  assume "length xs < 2"
  moreover have "length (dropna_values xs) \<le> length xs"
    by (simp add: dropna_values_def)
  ultimately have "length (dropna_values xs) < 2" by simp
  then show ?thesis by (simp add: series_std_def Let_def)
qed

lemma annualized_volatility_short:
  "length (rows R) < 2 \<Longrightarrow> annualized_volatility (theme_returns_of R vt) = NaN"
  by (simp add: annualized_volatility_def theme_returns_of_def series_std_short)

lemma values_dict_set: "snd ` set (dict_set d k v) \<subseteq> insert v (snd ` set d)"
  by (auto simp: dict_set_def split: if_splits)

lemma volatility_loop_short:
  "length (rows R) < 2 \<Longrightarrow> \<forall>v \<in> snd ` set tv. v = NaN \<Longrightarrow>
   \<forall>v \<in> snd ` set (fst (volatility_loop R tg tv out)). v = NaN"
proof (induction R tg tv out rule: volatility_loop.induct)
  case (1 returns theme_volatility out)
  then show ?case by simp
next
  case (2 returns theme tickers rest theme_volatility out)
  show ?case
  proof (cases "valid_tickers_of returns tickers = []")
    case True
    with 2 show ?thesis by (simp add: Let_def)
  next
    case False
    let ?tv' = "dict_set theme_volatility theme
      (annualized_volatility (theme_returns_of returns (valid_tickers_of returns tickers)))"
    have "\<forall>v \<in> snd ` set ?tv'. v = NaN"
      using values_dict_set [of theme_volatility theme] 2(3,4)
      by (auto simp: annualized_volatility_short)
    with 2(2) [OF refl False refl 2(3)] False show ?thesis
      by (simp add: Let_def)
  qed
qed

lemma keys_dict_set: "fst ` set (dict_set d k v) = insert k (fst ` set d)"
proof -
  have "set (map fst (dict_set d k v)) = insert k (set (map fst d))"
    unfolding map_fst_dict_set by auto
  then show ?thesis by simp
qed

lemma volatility_loop_keys:
  "fst ` set (fst (volatility_loop R tg tv out)) \<subseteq>
     fst ` set tv \<union> fst ` {g \<in> set tg. survives R g}"
proof (induction R tg tv out rule: volatility_loop.induct)
  case (1 returns theme_volatility out)
  then show ?case by simp
next
  case (2 returns theme tickers rest theme_volatility out)
  show ?case
  proof (cases "valid_tickers_of returns tickers = []")
    case True
    with 2(1) [OF refl True] show ?thesis by (auto simp: Let_def)
  next
    case False
    then have s: "survives returns (theme, tickers)" by (simp add: survives_def)
    from 2(2) [OF refl False refl] False
    have "fst ` set (fst (volatility_loop returns ((theme, tickers) # rest) theme_volatility out))
      \<subseteq> insert theme (fst ` set theme_volatility) \<union> fst ` {g \<in> set rest. survives returns g}"
      by (simp add: Let_def keys_dict_set)
    also have "\<dots> \<subseteq> fst ` set theme_volatility \<union>
        fst ` {g \<in> set ((theme, tickers) # rest). survives returns g}"
      using s by force
    finally show ?thesis .
  qed
qed

lemma theme_weights_nan:
  assumes d: "distinct (map fst tv)" and n: "\<forall>v \<in> snd ` set tv. v = NaN"
  shows "\<forall>v \<in> snd ` set (theme_weights_of tv cm). v = NaN"
proof -
  have "\<And>kv. kv \<in> set tv \<Longrightarrow> snd kv = NaN" using n by auto
  then have "\<forall>kv \<in> set tv.
      fl_div (fl_mul (fl_div (Fin 1) (snd kv)) (multiplier_of cm (fst kv)))
        (series_sum (map snd (map (adjust cm) (inverse_vol_of tv)))) = NaN"
    by simp
  moreover have "theme_weights_of tv cm =
      map (\<lambda>kv. (fst kv, fl_div (fl_mul (fl_div (Fin 1) (snd kv)) (multiplier_of cm (fst kv)))
        (series_sum (map snd (map (adjust cm) (inverse_vol_of tv)))))) tv"
    unfolding theme_weights_of_adjust [OF d]
    by (simp add: normalize_def inverse_vol_of_def case_prod_unfold adjust_multiplier Let_def)
  ultimately show ?thesis by auto
qed

lemma values_fold_dict_set:
  "snd ` set (fold (\<lambda>ticker d. dict_set d ticker x) tickers acc) \<subseteq> insert x (snd ` set acc)"
proof (induction tickers arbitrary: acc)
  case Nil
  then show ?case by auto
next
  case (Cons t tickers)
  have "snd ` set (fold (\<lambda>ticker d. dict_set d ticker x) tickers (dict_set acc t x))
      \<subseteq> insert x (snd ` set (dict_set acc t x))"
    by (rule Cons.IH)
  also have "\<dots> \<subseteq> insert x (snd ` set acc)"
    using values_dict_set [of acc t x] by auto
  finally show ?case by simp
qed

lemma ticker_loop_nan:
  "\<forall>v \<in> snd ` set thw. v = NaN \<Longrightarrow> \<forall>v \<in> snd ` set acc. v = NaN \<Longrightarrow>
   \<forall>v \<in> snd ` set (ticker_loop tg thw acc). v = NaN"
proof (induction tg thw acc rule: ticker_loop.induct)
  case (1 theme_weights ticker_weights)
  then show ?case by simp
next
  case (2 theme tickers rest theme_weights ticker_weights)
  show ?case
  proof (cases "map_of theme_weights theme")
    case None
    with 2 show ?thesis by simp
  next
    case (Some w)
    then have "(theme, w) \<in> set theme_weights" by (rule map_of_SomeD)
    with 2(3) have w: "w = NaN" by force
    let ?acc = "fold (\<lambda>ticker d. dict_set d ticker (fl_div w (Fin (real (length tickers)))))
      tickers ticker_weights"
    have "\<forall>v \<in> snd ` set ?acc. v = NaN"
      using values_fold_dict_set [of "fl_div w (Fin (real (length tickers)))" tickers ticker_weights]
        2(4) w by auto
    with 2(2) [OF Some refl 2(3)] Some show ?thesis by (simp add: Let_def)
  qed
qed

lemma ticker_loop_nonempty:
  assumes g: "(theme, tickers) \<in> set tg" and w: "map_of thw theme \<noteq> None"
    and t: "t \<in> set tickers"
  shows "ticker_loop tg thw acc \<noteq> []"
proof -
  let ?P = "\<lambda>g. map_of thw (fst g) \<noteq> None \<and> t \<in> set (snd g)"
  have "find ?P (rev tg) \<noteq> None"
  proof
    assume "find ?P (rev tg) = None"
    then have "\<not> (\<exists>x. x \<in> set (rev tg) \<and> ?P x)" by (simp add: find_None_iff)
    moreover from g w t have "(theme, tickers) \<in> set (rev tg) \<and> ?P (theme, tickers)" by simp
    ultimately show False by blast
  qed
  then have "map_of (ticker_loop tg thw acc) t \<noteq> None"
    unfolding ticker_loop_lookup by (auto split: option.splits)
  then show ?thesis by auto
qed

lemma allocation_of_nan:
  assumes ne: "tw \<noteq> []" and n: "\<forall>v \<in> snd ` set tw. v = NaN"
  shows "calculate_allocation tw pd pv =
     (if rows pd = [] then Inl IndexError else Inl IntCastingNaNError)"
proof (cases "rows pd = []")
  case True
  then show ?thesis by (simp add: calculate_allocation_def iloc_last_def)
next
  case False
  from ne obtain t w where m: "(t, w) \<in> set tw" by (cases tw) auto
  with n have "w = NaN" by force
  then have "to_int (snd (snd (snd (snd (float_row (zip (columns pd) (last (rows pd))) pv (t, w)))))) = None"
    by (simp add: float_row_nan)
  with m have "\<not> list_all (\<lambda>r. to_int (snd (snd (snd (snd r)))) \<noteq> None)
      (map (float_row (zip (columns pd) (last (rows pd))) pv) tw)"
    by (auto simp: list_all_iff)
  with False ne show ?thesis
    by (simp add: calculate_allocation_weights)
qed

lemma portfolio_allocator_eq:
  "portfolio_allocator fm pd tg pv cm =
     (case calculate_allocation
         (ticker_loop tg (theme_weights_of (fst (calculate_theme_volatility fm pd tg)) cm) []) pd pv of
        Inl e \<Rightarrow> Inl e
      | Inr allocation \<Rightarrow>
          Inr (allocation,
               map (\<lambda>(k, v). (k, v, np_round 2 (d_mul
                   (as_double (reindex (theme_weights_of (fst (calculate_theme_volatility fm pd tg)) cm) k))
                   (Fin 100))))
                 (fst (calculate_theme_volatility fm pd tg))))"
  by (simp add: portfolio_allocator_def calculate_weights_eq)

text \<open>
  Claim C7, as the code has it: on a price table with fewer than two rows nothing is
  raised while the returns and the volatilities are computed. There are fewer than two
  returns, so the standard deviation, and with it the volatility of every surviving
  theme, is NaN. If a theme survives, the run then stops in calculate_allocation, with
  the IndexError of \<open>iloc[-1]\<close> on a table without rows and with the error of the
  integer cast otherwise (all weights are NaN): it returns no allocation.
\<close>

theorem short_price_table:
  assumes short: "length (rows price_data) < 2"
  shows "(\<forall>v \<in> snd ` set (fst (calculate_theme_volatility fm price_data theme_groups)). v = NaN) \<and>
         (fst (calculate_theme_volatility fm price_data theme_groups) \<noteq> [] \<longrightarrow>
            portfolio_allocator fm price_data theme_groups portfolio_value conviction_multipliers =
              (if rows price_data = [] then Inl IndexError else Inl IntCastingNaNError))"
proof -
  let ?R = "dropna (pct_change fm price_data)"
  let ?tv = "fst (calculate_theme_volatility fm price_data theme_groups)"
  let ?thw = "theme_weights_of ?tv conviction_multipliers"
  let ?tw = "ticker_loop theme_groups ?thw []"
  have len: "length (rows ?R) < 2"
    using length_returns [of fm price_data] short by simp
  have nan: "\<forall>v \<in> snd ` set ?tv. v = NaN"
    unfolding calculate_theme_volatility_def Let_def
    by (rule volatility_loop_short [OF len]) simp
  have d: "distinct (map fst ?tv)" by (rule calculate_theme_volatility_distinct)
  have abort: "portfolio_allocator fm price_data theme_groups portfolio_value conviction_multipliers =
      (if rows price_data = [] then Inl IndexError else Inl IntCastingNaNError)"
    if ne: "?tv \<noteq> []"
  proof -
    from ne obtain k v where kv: "(k, v) \<in> set ?tv" by (cases ?tv) auto
    then have "k \<in> fst ` set ?tv" by force
    with volatility_loop_keys [of ?R theme_groups "[]" "[]"]
    have "k \<in> fst ` {g \<in> set theme_groups. survives ?R g}"
      by (auto simp: calculate_theme_volatility_def Let_def)
    then obtain tickers where g: "(k, tickers) \<in> set theme_groups"
      and s: "valid_tickers_of ?R tickers \<noteq> []"
      by (auto simp: survives_def)
    from s have "set (valid_tickers_of ?R tickers) \<noteq> {}" by simp
    then obtain t where t: "t \<in> set tickers"
      by (auto simp: valid_tickers_of_def)
    have "map fst ?thw = map fst ?tv" by (rule map_fst_theme_weights_of [OF d])
    with kv have "k \<in> fst ` set ?thw" by (metis image_eqI fst_conv list.set_map)
    then have w: "map_of ?thw k \<noteq> None" by (simp add: map_of_eq_None_iff)
    have "?tw \<noteq> []" by (rule ticker_loop_nonempty [OF g w t])
    moreover have "\<forall>v \<in> snd ` set ?tw. v = NaN"
      by (rule ticker_loop_nan [OF theme_weights_nan [OF d nan]]) simp
    ultimately have "calculate_allocation ?tw price_data portfolio_value =
        (if rows price_data = [] then Inl IndexError else Inl IntCastingNaNError)"
      by (rule allocation_of_nan)
    then show ?thesis
      unfolding portfolio_allocator_eq by simp
  qed
  with nan show ?thesis by blast
qed

text \<open>
  Claim C7 as stated fails: on a table of one day calculate_theme_volatility returns a
  volatility series, with NaN for the theme, and prints nothing.
\<close>

theorem short_price_table_counterexample:
  "calculate_theme_volatility Pad one_day_prices [(''A'', [''X''])] = ([(''A'', NaN)], []) \<and>
   calculate_theme_volatility NoFill one_day_prices [(''A'', [''X''])] = ([(''A'', NaN)], [])"
  by (simp add: calculate_theme_volatility_def one_day_prices_def
      pct_change_def dropna_def fill_def ffill_def series_std_def
      dropna_values_def dict_set_def valid_tickers_of_def
      theme_returns_of_def annualized_volatility_def Let_def)

theorem short_price_table_witness:
  "portfolio_allocator NoFill one_day_prices [(''A'', [''X''])] (Fin 100) None =
     Inl IntCastingNaNError"
proof -
  have short: "length (rows one_day_prices) < 2" by (simp add: one_day_prices_def)
  have "calculate_theme_volatility NoFill one_day_prices [(''A'', [''X''])] = ([(''A'', NaN)], [])"
    by (simp add: calculate_theme_volatility_def one_day_prices_def
      pct_change_def dropna_def fill_def ffill_def series_std_def
      dropna_values_def dict_set_def valid_tickers_of_def
      theme_returns_of_def annualized_volatility_def Let_def)
  then have ne: "fst (calculate_theme_volatility NoFill one_day_prices [(''A'', [''X''])]) \<noteq> []"
    by simp
  have rows: "rows one_day_prices \<noteq> []" by (simp add: one_day_prices_def)
  from short_price_table [OF short, of NoFill "[(''A'', [''X''])]" "Fin 100" None] ne rows
  show ?thesis by simp
qed

section \<open>The returns\<close>

lemma pct_rows_nth:
  "i < length rs \<Longrightarrow>
   pct_rows r rs ! i =
     map2 (\<lambda>p c. fl_sub (fl_div c p) (Fin 1)) ((r # rs) ! i) ((r # rs) ! Suc i)"
proof (induction rs arbitrary: r i)
  case Nil
  then show ?case by simp
next
  case (Cons a rs)
  then show ?case by (cases i) simp_all
qed

lemma pct_change_nth:
  assumes i: "Suc i < length (rows df)"
    and j: "j < length (fill fm (rows df) ! i)" "j < length (fill fm (rows df) ! Suc i)"
  shows "rows (pct_change fm df) ! Suc i ! j =
     fl_sub (fl_div (fill fm (rows df) ! Suc i ! j) (fill fm (rows df) ! i ! j)) (Fin 1)"
proof -
  from i have "length (fill fm (rows df)) = length (rows df)" by (simp add: length_fill)
  with i obtain r rs where F: "fill fm (rows df) = r # rs" and l: "i < length rs"
    by (cases "fill fm (rows df)") auto
  have "rows (pct_change fm df) ! Suc i = pct_rows r rs ! i"
    by (simp add: pct_change_def F)
  also have "\<dots> = map2 (\<lambda>p c. fl_sub (fl_div c p) (Fin 1)) ((r # rs) ! i) ((r # rs) ! Suc i)"
    by (rule pct_rows_nth [OF l])
  finally show ?thesis using j by (simp add: F)
qed

lemma ffill_from_nth:
  assumes "\<forall>r \<in> set rs. length r = n" and "length prev = n" and "i < length rs"
  shows "length (ffill_from prev rs ! i) = n \<and>
         (\<forall>j < n. \<not> is_nan (rs ! i ! j) \<longrightarrow> ffill_from prev rs ! i ! j = rs ! i ! j)"
  using assms
proof (induction rs arbitrary: prev i)
  case Nil
  then show ?case by simp
next
  case (Cons a rs)
  show ?case
  proof (cases i)
    case 0
    with Cons.prems show ?thesis by (simp add: Let_def)
  next
    case (Suc k)
    let ?a = "map2 (\<lambda>p c. if is_nan c then p else c) prev a"
    from Cons.prems have "length ?a = n" by simp
    with Cons.IH [of ?a k] Cons.prems Suc show ?thesis by (simp add: Let_def)
  qed
qed

lemma fill_nth:
  assumes wf: "\<forall>r \<in> set rs. length r = n" and i: "i < length rs"
  shows "length (fill fm rs ! i) = n \<and>
         (\<forall>j < n. \<not> is_nan (rs ! i ! j) \<longrightarrow> fill fm rs ! i ! j = rs ! i ! j)"
proof (cases fm)
  case NoFill
  with wf i show ?thesis by (simp add: fill_def)
next
  case Pad
  show ?thesis
  proof (cases rs)
    case Nil
    with i show ?thesis by simp
  next
    case (Cons r rs')
    show ?thesis
    proof (cases i)
      case 0
      with Pad Cons wf show ?thesis by (simp add: fill_def ffill_def)
    next
      case (Suc k)
      with Cons i wf have "\<forall>r \<in> set rs'. length r = n" "length r = n" "k < length rs'"
        by simp_all
      from ffill_from_nth [OF this] Pad Cons Suc show ?thesis
        by (simp add: fill_def ffill_def)
    qed
  qed
qed

text \<open>
  Claim C6, as the code has it: in a table whose rows have one cell per column, the
  return of a ticker on a day is its price over its price of the day before, minus 1,
  wherever both prices are present, and everywhere on a pandas that does not fill
  (a missing price then gives a missing return). \<open>dropna()\<close> keeps the rows without
  any missing return: a day is dropped as soon as one ticker has no return on it, and
  no row of the returns has a missing cell.
\<close>

theorem returns_drop_any_absent:
  assumes wf: "\<forall>r \<in> set (rows price_data). length r = length (columns price_data)"
    and i: "Suc i < length (rows price_data)"
    and j: "j < length (columns price_data)"
    and present: "fm = NoFill \<or>
      (\<not> is_nan (rows price_data ! i ! j) \<and> \<not> is_nan (rows price_data ! Suc i ! j))"
  shows "rows (pct_change fm price_data) ! Suc i ! j =
           fl_sub (fl_div (rows price_data ! Suc i ! j) (rows price_data ! i ! j)) (Fin 1) \<and>
         rows (dropna (pct_change fm price_data)) =
           filter (\<lambda>r. NaN \<notin> set r) (rows (pct_change fm price_data)) \<and>
         (\<forall>r \<in> set (rows (dropna (pct_change fm price_data))). NaN \<notin> set r)"
proof -
  let ?P = "rows price_data" and ?n = "length (columns price_data)"
  from i have i': "i < length ?P" by simp
  note a = fill_nth [OF wf i', of fm] and b = fill_nth [OF wf i, of fm]
  have eq: "fill fm ?P ! i ! j = ?P ! i ! j \<and> fill fm ?P ! Suc i ! j = ?P ! Suc i ! j"
  proof (cases "fm = NoFill")
    case True
    then show ?thesis by (simp add: fill_def)
  next
    case False
    with present a b j show ?thesis by simp
  qed
  have "rows (pct_change fm price_data) ! Suc i ! j =
      fl_sub (fl_div (fill fm ?P ! Suc i ! j) (fill fm ?P ! i ! j)) (Fin 1)"
    using a b j by (intro pct_change_nth [OF i]) simp_all
  with eq have first: "rows (pct_change fm price_data) ! Suc i ! j =
      fl_sub (fl_div (?P ! Suc i ! j) (?P ! i ! j)) (Fin 1)"
    by simp
  have nan: "\<And>r. list_ex is_nan r \<longleftrightarrow> NaN \<in> set r"
  proof -
    fix r show "list_ex is_nan r \<longleftrightarrow> NaN \<in> set r"
      by (induction r) (auto elim: is_nan.elims)
  qed
  have second: "rows (dropna (pct_change fm price_data)) =
      filter (\<lambda>r. NaN \<notin> set r) (rows (pct_change fm price_data))"
    by (simp add: dropna_def nan)
  from first second show ?thesis by simp
qed

text \<open>
  Claim C6 as stated fails: Z has its first price on the third day, so on the second
  and third day X has a return and Z has none. Both days are dropped, though not all
  tickers are absent; nothing is left of the returns.
\<close>

theorem returns_keep_partial_rows_counterexample:
  "rows (pct_change NoFill gap_prices) = [[NaN, NaN], [Fin 1, NaN], [Fin 1, NaN]] \<and>
   rows (pct_change Pad gap_prices) = [[NaN, NaN], [Fin 1, NaN], [Fin 1, NaN]] \<and>
   rows (dropna (pct_change NoFill gap_prices)) = [] \<and>
   rows (dropna (pct_change Pad gap_prices)) = []"
  by (simp add: gap_prices_def pct_change_def dropna_def fill_def ffill_def fl_sub_def Let_def)

theorem returns_drop_any_absent_witness:
  "rows (pct_change Pad ex_prices) ! Suc 0 ! 0 =
     fl_sub (fl_div (rows ex_prices ! Suc 0 ! 0) (rows ex_prices ! 0 ! 0)) (Fin 1) \<and>
   rows (dropna (pct_change Pad ex_prices)) =
     filter (\<lambda>r. NaN \<notin> set r) (rows (pct_change Pad ex_prices))"
proof -
  have wf: "\<forall>r \<in> set (rows ex_prices). length r = length (columns ex_prices)"
    by (simp add: ex_prices_def)
  have i: "Suc 0 < length (rows ex_prices)" by (simp add: ex_prices_def)
  have j: "0 < length (columns ex_prices)" by (simp add: ex_prices_def)
  have present: "Pad = NoFill \<or>
      (\<not> is_nan (rows ex_prices ! 0 ! 0) \<and> \<not> is_nan (rows ex_prices ! Suc 0 ! 0))"
    by (simp add: ex_prices_def)
  from returns_drop_any_absent [OF wf i j present] show ?thesis by blast
qed

section \<open>A volatility is never infinite\<close>












section \<open>The theme weights sum to one\<close>



end
